theory Spec2Isabelle
  imports Complex_Main "HOL-Library.AList"
begin

section \<open>JavaScript values\<close>

text \<open>
  The plugin is JavaScript. A number is a finite value, NaN or an infinity; finite
  doubles are rationals, and \<open>Math.ceil\<close> and \<open>Math.max\<close> are exact on them, so
  a finite number is modelled as a rational. An object is the list of its own properties
  in insertion order.
\<close>

datatype jsnum = Finite rat | NaN | PosInf | NegInf

datatype jsval =
    JUndefined
  | JNull
  | JBool bool
  | JNum jsnum
  | JStr string
  | JArr "jsval list"
  | JObj "(string \<times> jsval) list"
  | JErr string

type_synonym obj = "(string \<times> jsval) list"

text \<open>Truthiness, as \<open>if (v)\<close>, \<open>!v\<close> and \<open>a || b\<close> test it.\<close>

fun truthy :: "jsval \<Rightarrow> bool" where
  "truthy JUndefined = False"
| "truthy JNull = False"
| "truthy (JBool b) = b"
| "truthy (JNum (Finite q)) = (q \<noteq> 0)"
| "truthy (JNum NaN) = False"
| "truthy (JNum PosInf) = True"
| "truthy (JNum NegInf) = True"
| "truthy (JStr s) = (s \<noteq> [])"
| "truthy (JArr xs) = True"
| "truthy (JObj kvs) = True"
| "truthy (JErr m) = True"

fun typeof :: "jsval \<Rightarrow> string" where
  "typeof JUndefined = ''undefined''"
| "typeof JNull = ''object''"
| "typeof (JBool b) = ''boolean''"
| "typeof (JNum n) = ''number''"
| "typeof (JStr s) = ''string''"
| "typeof (JArr xs) = ''object''"
| "typeof (JObj kvs) = ''object''"
| "typeof (JErr m) = ''object''"

text \<open>\<open>o[key]\<close> is \<open>undefined\<close> for a key the object does not have.\<close>

definition obj_get :: "obj \<Rightarrow> string \<Rightarrow> jsval" where
  "obj_get ob key = (case map_of ob key of None \<Rightarrow> JUndefined | Some v \<Rightarrow> v)"

definition hasOwnProperty :: "obj \<Rightarrow> string \<Rightarrow> bool" where
  "hasOwnProperty ob key = (key \<in> set (map fst ob))"

definition Object_keys :: "obj \<Rightarrow> string list" where
  "Object_keys ob = map fst ob"

text \<open>\<open>xs.indexOf(x)\<close>: the first position of \<open>x\<close>, or \<open>-1\<close>.\<close>

fun indexOf :: "'a list \<Rightarrow> 'a \<Rightarrow> int" where
  "indexOf [] x = -1"
| "indexOf (y # ys) x =
     (if y = x then 0 else (let i = indexOf ys x in if i = -1 then -1 else i + 1))"

fun Math_ceil :: "jsnum \<Rightarrow> jsnum" where
  "Math_ceil (Finite q) = Finite (of_int \<lceil>q\<rceil>)"
| "Math_ceil NaN = NaN"
| "Math_ceil PosInf = PosInf"
| "Math_ceil NegInf = NegInf"

text \<open>\<open>Math.max(a, b)\<close>: NaN as soon as one argument is NaN.\<close>

fun Math_max :: "jsnum \<Rightarrow> jsnum \<Rightarrow> jsnum" where
  "Math_max NaN b = NaN"
| "Math_max a NaN = NaN"
| "Math_max PosInf b = PosInf"
| "Math_max a PosInf = PosInf"
| "Math_max NegInf b = b"
| "Math_max a NegInf = a"
| "Math_max (Finite p) (Finite q) = Finite (max p q)"

text \<open>A thrown exception stops a left-to-right reduction.\<close>

fun reduce :: "('k \<Rightarrow> 'a \<Rightarrow> 'e + 'a) \<Rightarrow> 'k list \<Rightarrow> 'a \<Rightarrow> 'e + 'a" where
  "reduce f [] acc = Inr acc"
| "reduce f (k # ks) acc = (case f k acc of Inl e \<Rightarrow> Inl e | Inr acc' \<Rightarrow> reduce f ks acc')"

section \<open>The configuration snapshot: \<open>HappyPlugin.extractOptions\<close>\<close>

definition SERIALIZABLE_OPTIONS :: "string list" where
  "SERIALIZABLE_OPTIONS =
     [''cache'', ''context'', ''debug'', ''devtool'', ''resolve'', ''resolveLoader'',
      ''module'', ''node'', ''output'', ''target'', ''watch'']"

text \<open>
  \<open>Object.keys(options).reduce(function(hsh, key) { ... }, {})\<close>: the accumulator is a
  fresh object, a key of the allow-list is copied with \<open>options[key]\<close>.
\<close>

definition extractOptions :: "obj \<Rightarrow> obj" where
  "extractOptions options =
     (let ALLOWED_KEYS = SERIALIZABLE_OPTIONS in
      fold (\<lambda>key hsh.
              if indexOf ALLOWED_KEYS key > -1 then AList.update key (obj_get options key) hsh
              else hsh)
           (Object_keys options) [])"

section \<open>Option parsing: \<open>parseAndValidateOptions\<close>\<close>

text \<open>
  One entry of the schema. An absent \<open>type\<close> or \<open>validate\<close> is \<open>None\<close>, an absent
  \<open>default\<close> is \<open>undefined\<close>. A validator returns its message (\<open>undefined\<close> is
  \<open>None\<close>) or throws.
\<close>

record spec =
  spec_type :: "string option"
  spec_default :: jsval
  spec_validate :: "(jsval \<Rightarrow> jsval + string option) option"
  isRequired :: bool

type_synonym schema = "(string \<times> spec) list"

definition format :: "string \<Rightarrow> string \<Rightarrow> string" where
  "format displayName message = ''HappyPack['' @ displayName @ '']: '' @ message"

text \<open>A failed \<open>assert(cond, message)\<close> throws an error carrying the message.\<close>

definition assertion_error :: "string \<Rightarrow> jsval" where
  "assertion_error message = JErr message"

text \<open>The first loop: every required key must be an own property of the parameters.\<close>

fun ensure_required :: "obj \<Rightarrow> string \<Rightarrow> string list \<Rightarrow> jsval option" where
  "ensure_required params displayName [] = None"
| "ensure_required params displayName (key # keys) =
     (if hasOwnProperty params key then ensure_required params displayName keys
      else Some (assertion_error
                   (format displayName (''Missing required parameter '' @ [CHR 39] @ key @ [CHR 39]))))"

definition getDefaults :: "schema \<Rightarrow> obj" where
  "getDefaults sch =
     fold (\<lambda>key hsh.
             case map_of sch key of
               None \<Rightarrow> hsh
             | Some sp \<Rightarrow> if truthy (spec_default sp) then AList.update key (spec_default sp) hsh
                          else hsh)
          (map fst sch) []"

text \<open>The body of the second loop, for one key of the parameters.\<close>

definition parse_key :: "obj \<Rightarrow> schema \<Rightarrow> string \<Rightarrow> string \<Rightarrow> obj \<Rightarrow> jsval + obj" where
  "parse_key params sch displayName key hsh =
     (let v = obj_get params key in
      case map_of sch key of
        None \<Rightarrow> Inl (assertion_error
                       (format displayName (''Unrecognized option '' @ [CHR 39] @ key @ [CHR 39])))
      | Some sp \<Rightarrow>
          (case (case spec_validate sp of None \<Rightarrow> Inr None | Some validate \<Rightarrow> validate v) of
             Inl e \<Rightarrow> Inl e
           | Inr validationError \<Rightarrow>
               (case (case validationError of None \<Rightarrow> None
                      | Some m \<Rightarrow> if m = [] then None else Some m) of
                  Some m \<Rightarrow> Inl (assertion_error (format displayName m))
                | None \<Rightarrow>
                    (case (case spec_type sp of None \<Rightarrow> None
                           | Some t \<Rightarrow> if t = [] \<or> typeof v = t then None else Some t) of
                       Some t \<Rightarrow>
                         Inl (assertion_error
                                (format displayName
                                   (''Option '' @ [CHR 39] @ key @ [CHR 39] @ '' must be of type ''
                                    @ [CHR 39] @ t @ [CHR 39] @ '' not '' @ [CHR 39] @ typeof v
                                    @ [CHR 39] @ ''.'')))
                     | None \<Rightarrow>
                         (if truthy (spec_default sp) \<and> (v = JUndefined \<or> v = JNull)
                          then Inr (AList.update key (spec_default sp) hsh)
                          else Inr (AList.update key v hsh))))))"

definition parseAndValidateOptions :: "obj \<Rightarrow> schema \<Rightarrow> string \<Rightarrow> jsval + obj" where
  "parseAndValidateOptions params sch displayName =
     (case ensure_required params displayName
             (filter (\<lambda>key. case map_of sch key of None \<Rightarrow> False | Some sp \<Rightarrow> isRequired sp)
                     (map fst sch)) of
        Some e \<Rightarrow> Inl e
      | None \<Rightarrow> reduce (parse_key params sch displayName) (Object_keys params) (getDefaults sch))"

section \<open>The plugin and its collaborators\<close>

text \<open>
  \<open>loader.path\<close>: a property read throws a TypeError on \<open>undefined\<close> and \<open>null\<close>, and
  is \<open>undefined\<close> on a value that has no such property.
\<close>

fun loader_path :: "jsval \<Rightarrow> jsval + jsval" where
  "loader_path JUndefined = Inl (JErr ''TypeError: Cannot read property path of undefined'')"
| "loader_path JNull = Inl (JErr ''TypeError: Cannot read property path of null'')"
| "loader_path (JObj kvs) = Inr (obj_get kvs ''path'')"
| "loader_path v = Inr JUndefined"

text \<open>\<open>value.some(function(loader) { return !loader.path; })\<close>, left to right.\<close>

fun some_without_path :: "jsval list \<Rightarrow> jsval + bool" where
  "some_without_path [] = Inr False"
| "some_without_path (loader # loaders) =
     (case loader_path loader of
        Inl e \<Rightarrow> Inl e
      | Inr p \<Rightarrow> if \<not> truthy p then Inr True else some_without_path loaders)"

definition validate_loaders :: "jsval \<Rightarrow> jsval + string option" where
  "validate_loaders v =
     (case v of
        JArr loaders \<Rightarrow>
          (if length loaders = 0 then Inr (Some ''You must specify at least one loader!'')
           else (case some_without_path loaders of
                   Inl e \<Rightarrow> Inl e
                 | Inr True \<Rightarrow> Inr (Some ''Loader must have a @path property.'')
                 | Inr False \<Rightarrow> Inr None))
      | _ \<Rightarrow> Inr (Some ''Loaders must be an array!''))"

definition plain :: spec where
  "plain = \<lparr>spec_type = None, spec_default = JUndefined, spec_validate = None, isRequired = False\<rparr>"

definition plugin_schema :: schema where
  "plugin_schema =
     [(''id'', plain\<lparr>spec_type := Some ''string''\<rparr>),
      (''tempDir'', plain\<lparr>spec_type := Some ''string'', spec_default := JStr ''.happypack''\<rparr>),
      (''threads'', plain\<lparr>spec_type := Some ''number'', spec_default := JNum (Finite 3)\<rparr>),
      (''cache'', plain\<lparr>spec_type := Some ''boolean'', spec_default := JBool True\<rparr>),
      (''cacheContext'', plain\<lparr>spec_default := JObj []\<rparr>),
      (''cachePath'', plain\<lparr>spec_type := Some ''string''\<rparr>),
      (''installExitHandler'', plain\<lparr>spec_type := Some ''boolean'', spec_default := JBool True\<rparr>),
      (''loaders'', plain\<lparr>spec_validate := Some validate_loaders, isRequired := True\<rparr>)]"

text \<open>The thread pool object, made from the configuration.\<close>

datatype pool = HappyThreadPool obj

text \<open>What a worker passes to the callback of \<open>compile\<close>.\<close>

record worker_result =
  success :: bool
  compiledPath :: string

text \<open>
  The cache, the thread pool, the loader pipeline, the file system and the helpers of
  \<open>HappyUtils\<close> and \<open>JSONSerializer\<close> are other modules: their operations are
  parameters, collected here. The cache is a value of any type \<open>'c\<close> that its
  operations transform. A function that can throw returns the thrown value (\<open>Inl\<close>, or
  \<open>Some\<close> where it returns nothing). An operation that answers through a callback
  returns what it passes to the callback, \<open>None\<close> when it never calls back.
\<close>

record 'c env =
  toString :: "jsval \<Rightarrow> string"
  path_resolve :: "string list \<Rightarrow> string"
  mkdirSync :: "string \<Rightarrow> jsval option"
  HappyFSCache :: "string \<Rightarrow> string \<Rightarrow> jsval \<Rightarrow> jsval \<Rightarrow> 'c"
  cache_load :: "'c \<Rightarrow> 'c"
  cache_save :: "'c \<Rightarrow> jsval + 'c"
  hasChanged :: "'c \<Rightarrow> string \<Rightarrow> bool"
  hasErrored :: "'c \<Rightarrow> string \<Rightarrow> bool"
  getCompiledPath :: "'c \<Rightarrow> string \<Rightarrow> string"
  invalidateEntryFor :: "'c \<Rightarrow> string \<Rightarrow> 'c"
  updateMTimeFor :: "'c \<Rightarrow> string \<Rightarrow> string option \<Rightarrow> string option \<Rightarrow> 'c"
  readFileSync :: "string \<Rightarrow> jsval + string"
  writeFileSync :: "string \<Rightarrow> string \<Rightarrow> jsval option"
  serialize :: "jsval \<Rightarrow> jsval + string"
  generateCompiledPath :: "string \<Rightarrow> string"
  applyLoaders :: "jsval \<Rightarrow> string \<Rightarrow> jsval \<Rightarrow> string \<Rightarrow> (jsval \<times> string \<times> jsval) option"
  pool_start :: "pool \<Rightarrow> jsval option"
  pool_stop :: "pool \<Rightarrow> jsval option"
  thread_compile :: "pool \<Rightarrow> string \<Rightarrow> worker_result option"
  toNumber :: "jsval \<Rightarrow> jsnum"
  pkg_version :: string
  HAPPY_DEBUG :: bool

record state =
  started :: bool
  initialBuildCompleted :: bool

record 'c plugin =
  plugin_id :: string
  plugin_name :: string
  state :: state
  config :: obj
  cache :: 'c
  threadPool :: "pool option"
  compilerOptions :: jsval

text \<open>
  What a call does to the world outside the plugin, in the order it happens. An operation
  of a collaborator is recorded once it has returned; one that throws is not.
  \<open>Callback\<close> is a call of the \<open>done\<close> the host passed in, with its arguments.
\<close>

datatype effect =
    ConsoleLog "jsval list"
  | ConsoleError "jsval list"
  | ConsoleWarn "jsval list"
  | FsWrite string string
  | FsRead string
  | PoolConstruct
  | PoolStart
  | PoolStop
  | PoolCompile string
  | CacheLoad
  | CacheSave
  | CacheInvalidate string
  | CacheUpdate string "string option" "string option"
  | ApplyLoaders string
  | Callback "jsval list"

text \<open>
  A call returns the plugin as it left it, the effects it had, and the exception it threw,
  if any.
\<close>

type_synonym 'c outcome = "'c plugin \<times> effect list \<times> jsval option"

section \<open>Construction\<close>

text \<open>\<open>String(v)\<close> is \<open>v\<close> itself for a string; the conversion of other values is a parameter.\<close>

definition String_of :: "'c env \<Rightarrow> jsval \<Rightarrow> string" where
  "String_of env v = (case v of JStr s \<Rightarrow> s | _ \<Rightarrow> toString env v)"

text \<open>\<open>Math.ceil\<close> converts its argument to a number first.\<close>

definition Number_of :: "'c env \<Rightarrow> jsval \<Rightarrow> jsnum" where
  "Number_of env v = (case v of JNum n \<Rightarrow> n | _ \<Rightarrow> toNumber env v)"

definition not_a_string :: jsval where
  "not_a_string = JErr ''TypeError: path must be a string''"

text \<open>
  \<open>new HappyPlugin(userConfig)\<close>, with the counter \<open>uid\<close> of the module passed in and
  returned. \<open>path.resolve\<close> throws a TypeError on an argument that is not a string.
\<close>

definition HappyPlugin :: "'c env \<Rightarrow> nat \<Rightarrow> obj \<Rightarrow> jsval + ('c plugin \<times> nat)" where
  "HappyPlugin env uid userConfig =
     (let uid' = (if truthy (obj_get userConfig ''id'') then uid else uid + 1);
          pid = String_of env (if truthy (obj_get userConfig ''id'') then obj_get userConfig ''id''
                               else JNum (Finite (of_nat uid')))
      in case parseAndValidateOptions userConfig plugin_schema pid of
           Inl e \<Rightarrow> Inl e
         | Inr config0 \<Rightarrow>
             (let config1 = AList.update ''threads''
                              (JNum (Math_max (Math_ceil (Number_of env (obj_get config0 ''threads'')))
                                              (Finite 1)))
                              config0
              in case obj_get config1 ''tempDir'' of
                   JStr tempDir \<Rightarrow>
                     (let config2 = AList.update ''optionsPath''
                                      (JStr (path_resolve env [tempDir, ''options--'' @ pid @ ''.json'']))
                                      config1
                      in case mkdirSync env tempDir of
                           Some e \<Rightarrow> Inl e
                         | None \<Rightarrow>
                             (case (if truthy (obj_get config2 ''cachePath'')
                                    then (case obj_get config2 ''cachePath'' of
                                            JStr cachePath \<Rightarrow> Inr (path_resolve env [cachePath])
                                          | _ \<Rightarrow> Inl not_a_string)
                                    else Inr (path_resolve env [tempDir, ''cache--'' @ pid @ ''.json''])) of
                                Inl e \<Rightarrow> Inl e
                              | Inr cache_path \<Rightarrow>
                                  Inr (\<lparr>plugin_id = pid,
                                        plugin_name = ''HappyPack'',
                                        state = \<lparr>started = False, initialBuildCompleted = False\<rparr>,
                                        config = config2,
                                        cache = HappyFSCache env pid cache_path
                                                  (obj_get config2 ''loaders'')
                                                  (obj_get config2 ''cacheContext''),
                                        threadPool = None,
                                        compilerOptions = JUndefined\<rparr>, uid')))
                 | _ \<Rightarrow> Inl not_a_string))"

section \<open>The lifecycle: \<open>apply\<close>, \<open>start\<close>, \<open>teardown\<close>\<close>

text \<open>\<open>apply(compiler)\<close> keeps the options of the compiler; the hooks it installs are \<open>handle\<close> below.\<close>

definition apply_plugin :: "'c plugin \<Rightarrow> obj \<Rightarrow> 'c plugin" where
  "apply_plugin that compiler_options = that\<lparr>compilerOptions := JObj compiler_options\<rparr>"

text \<open>
  The \<open>try\<close> block of \<open>start\<close>: the arguments of \<open>fs.writeFileSync\<close> are evaluated
  first (the serializer may throw), then the file is written.
\<close>

definition write_options :: "'c env \<Rightarrow> obj \<Rightarrow> 'c plugin \<Rightarrow> jsval + effect" where
  "write_options env compiler_options that =
     (case serialize env (JObj [(''loaders'', obj_get (config that) ''loaders''),
                                (''compilerOptions'', JObj (extractOptions compiler_options))]) of
        Inl e \<Rightarrow> Inl e
      | Inr text \<Rightarrow>
          (case obj_get (config that) ''optionsPath'' of
             JStr optionsPath \<Rightarrow>
               (case writeFileSync env optionsPath text of
                  Some e \<Rightarrow> Inl e
                | None \<Rightarrow> Inr (FsWrite optionsPath text))
           | _ \<Rightarrow> Inl not_a_string))"

definition firing_up :: "'c env \<Rightarrow> 'c plugin \<Rightarrow> effect" where
  "firing_up env that =
     ConsoleLog [JStr ''Happy[%s]: Firing up! Version: %s. Using cache? %s.'',
                 JStr (plugin_id that), JStr (pkg_version env),
                 JStr (if truthy (obj_get (config that) ''cache'') then ''yes'' else ''no'')]"

definition unable_to_serialize :: "obj \<Rightarrow> 'c plugin \<Rightarrow> effect list" where
  "unable_to_serialize compiler_options that =
     [ConsoleError [JStr ''Happy[%s]: Unable to serialize options!!! This is an internal error.'',
                    JStr (plugin_id that)],
      ConsoleError [JObj compiler_options]]"

definition all_set :: "'c plugin \<Rightarrow> effect" where
  "all_set that =
     ConsoleLog [JStr ''Happy[%s]: All set; signalling webpack to proceed.'', JStr (plugin_id that)]"

text \<open>
  \<open>start(_, done)\<close>, the handler of \<open>run\<close> and \<open>watch-run\<close>. The callback given to
  \<open>threadPool.start\<close> runs when the pool calls it, with the pool's \<open>err\<close>.
\<close>

definition start :: "'c env \<Rightarrow> obj \<Rightarrow> 'c plugin \<Rightarrow> 'c outcome" where
  "start env compiler_options that =
     (if started (state that) \<or> initialBuildCompleted (state that) then (that, [Callback []], None)
      else
        (case write_options env compiler_options that of
           Inl e \<Rightarrow>
             (that, [firing_up env that] @ unable_to_serialize compiler_options that @ [Callback [e]],
              None)
         | Inr written \<Rightarrow>
             (let p = HappyThreadPool (config that);
                  that1 = that\<lparr>threadPool := Some p\<rparr>;
                  caching = truthy (obj_get (config that1) ''cache'');
                  that2 = (if caching then that1\<lparr>cache := cache_load env (cache that1)\<rparr> else that1);
                  tr = [firing_up env that, written, PoolConstruct]
                       @ (if caching then [CacheLoad] else []) @ [PoolStart]
              in case pool_start env p of
                   None \<Rightarrow> (that2, tr, None)
                 | Some err \<Rightarrow>
                     (if truthy err then (that2, tr @ [Callback [err]], None)
                      else (that2\<lparr>state := (state that2)\<lparr>started := True\<rparr>\<rparr>,
                            tr @ [all_set that2, Callback []], None)))))"

text \<open>
  \<open>teardown()\<close>. \<open>cache.save()\<close> and \<open>threadPool.stop()\<close> are called with no
  \<open>try\<close> around them, and \<open>started\<close> is cleared last: when one of them throws,
  \<open>teardown\<close> throws with \<open>started\<close> still true.
\<close>

definition teardown :: "'c env \<Rightarrow> 'c plugin \<Rightarrow> 'c outcome" where
  "teardown env that =
     (if started (state that) then
        (case (if truthy (obj_get (config that) ''cache'')
               then (case cache_save env (cache that) of
                       Inl e \<Rightarrow> Inl e
                     | Inr c \<Rightarrow> Inr (that\<lparr>cache := c\<rparr>, [CacheSave]))
               else Inr (that, [])) of
           Inl e \<Rightarrow> (that, [], Some e)
         | Inr (that1, tr) \<Rightarrow>
             (case threadPool that1 of
                None \<Rightarrow> (that1\<lparr>state := (state that1)\<lparr>started := False\<rparr>\<rparr>, tr, None)
              | Some p \<Rightarrow>
                  (case pool_stop env p of
                     Some e \<Rightarrow> (that1, tr, Some e)
                   | None \<Rightarrow>
                       (that1\<lparr>state := (state that1)\<lparr>started := False\<rparr>\<rparr>,
                        tr @ [PoolStop], None))))
      else (that, [], None))"

text \<open>
  The handler of \<open>done\<close>: \<open>teardown(); state.initialBuildCompleted = true\<close>. The
  assignment is not reached when \<open>teardown\<close> throws.
\<close>

definition on_done :: "'c env \<Rightarrow> 'c plugin \<Rightarrow> 'c outcome" where
  "on_done env that =
     (case teardown env that of
        (that1, tr, Some e) \<Rightarrow> (that1, tr, Some e)
      | (that1, tr, None) \<Rightarrow>
          (that1\<lparr>state := (state that1)\<lparr>initialBuildCompleted := True\<rparr>\<rparr>, tr, None))"

section \<open>The compile router\<close>

definition file_had_changed :: "'c env \<Rightarrow> string \<Rightarrow> effect list" where
  "file_had_changed env filePath =
     (if HAPPY_DEBUG env
      then [ConsoleWarn [JStr ''File had changed, re-compiling... (%s)'', JStr filePath]]
      else [])"

text \<open>
  \<open>compileInBackground(source, map, filePath, done)\<close>. Neither \<open>source\<close> nor \<open>map\<close>
  occurs in its body. \<open>this.threadPool.getThread()\<close> throws a TypeError while no pool
  has been made. The function given to the worker runs when the worker answers; what it
  throws is reported as thrown by the call.
\<close>

definition compileInBackground ::
  "'c env \<Rightarrow> 'c plugin \<Rightarrow> string \<Rightarrow> jsval \<Rightarrow> string \<Rightarrow> 'c outcome" where
  "compileInBackground env that source smap filePath =
     (if \<not> hasChanged env (cache that) filePath \<and> \<not> hasErrored env (cache that) filePath then
        (case readFileSync env (getCompiledPath env (cache that) filePath) of
           Inl e \<Rightarrow> (that, [], Some e)
         | Inr contents \<Rightarrow>
             (that, [FsRead (getCompiledPath env (cache that) filePath),
                     Callback [JNull, JStr contents]], None))
      else
        (let that1 = that\<lparr>cache := invalidateEntryFor env (cache that) filePath\<rparr>;
             tr = file_had_changed env filePath @ [CacheInvalidate filePath]
         in case threadPool that1 of
              None \<Rightarrow>
                (that1, tr, Some (JErr ''TypeError: Cannot read property getThread of undefined''))
            | Some p \<Rightarrow>
                (case thread_compile env p filePath of
                   None \<Rightarrow> (that1, tr @ [PoolCompile filePath], None)
                 | Some result \<Rightarrow>
                     (case readFileSync env (compiledPath result) of
                        Inl e \<Rightarrow> (that1, tr @ [PoolCompile filePath], Some e)
                      | Inr contents \<Rightarrow>
                          (if \<not> success result then
                             (that1\<lparr>cache := updateMTimeFor env (cache that1) filePath None
                                                (Some contents)\<rparr>,
                              tr @ [PoolCompile filePath, FsRead (compiledPath result),
                                    CacheUpdate filePath None (Some contents),
                                    Callback [JStr contents]],
                              None)
                           else
                             (that1\<lparr>cache := updateMTimeFor env (cache that1) filePath
                                                (Some (compiledPath result)) None\<rparr>,
                              tr @ [PoolCompile filePath, FsRead (compiledPath result),
                                    CacheUpdate filePath (Some (compiledPath result)) None,
                                    Callback [JNull, JStr contents, JNull]],
                              None))))))"

text \<open>
  \<open>compileInForeground(source, map, filePath, done)\<close>. \<open>applyLoaders\<close> answers with
  \<open>(err, result)\<close>; \<open>result.code\<close> and \<open>result.map\<close> are the last two components.
\<close>

definition compileInForeground ::
  "'c env \<Rightarrow> 'c plugin \<Rightarrow> string \<Rightarrow> jsval \<Rightarrow> string \<Rightarrow> 'c outcome" where
  "compileInForeground env that source smap filePath =
     (let options = JObj [(''loaders'', obj_get (config that) ''loaders''),
                          (''compilerOptions'', compilerOptions that)];
          that1 = that\<lparr>cache := invalidateEntryFor env (cache that) filePath\<rparr>;
          tr = [CacheInvalidate filePath, ApplyLoaders filePath]
      in case applyLoaders env options source smap filePath of
           None \<Rightarrow> (that1, tr, None)
         | Some (err, code, result_map) \<Rightarrow>
             (if truthy err then (that1, tr @ [Callback [err]], None)
              else
                (case obj_get (config that1) ''tempDir'' of
                   JStr tempDir \<Rightarrow>
                     (let target = path_resolve env [tempDir, generateCompiledPath env filePath]
                      in case writeFileSync env target code of
                           Some e \<Rightarrow> (that1, tr, Some e)
                         | None \<Rightarrow>
                             (that1\<lparr>cache := updateMTimeFor env (cache that1) filePath
                                                (Some target) None\<rparr>,
                              tr @ [FsWrite target code, CacheUpdate filePath (Some target) None,
                                    Callback [JNull, JStr code, result_map]],
                              None))
                 | _ \<Rightarrow> (that1, tr, Some not_a_string))))"

definition compile :: "'c env \<Rightarrow> 'c plugin \<Rightarrow> string \<Rightarrow> jsval \<Rightarrow> string \<Rightarrow> 'c outcome" where
  "compile env that source smap filePath =
     (if initialBuildCompleted (state that) then compileInForeground env that source smap filePath
      else compileInBackground env that source smap filePath)"

definition isAcceptingSyncRequests :: "'c plugin \<Rightarrow> bool" where
  "isAcceptingSyncRequests that = initialBuildCompleted (state that)"

section \<open>Runs of the plugin\<close>

text \<open>
  What the host and the process send to the plugin once \<open>apply\<close> has installed the hooks:
  the compiler events \<open>run\<close>, \<open>watch-run\<close>, \<open>failed-module\<close> and \<open>done\<close>, the
  \<open>exit\<close> of the process, and a call of \<open>compile\<close>.
\<close>

datatype event =
    EvRun
  | EvWatchRun
  | EvFailedModule
  | EvDone
  | EvExit
  | EvCompile string jsval string

text \<open>
  \<open>failed-module\<close> is hooked when \<open>compiler.options.bail\<close> holds, \<open>exit\<close> when the
  compiler watches and \<open>installExitHandler\<close> is not \<open>false\<close>.
\<close>

definition handle :: "'c env \<Rightarrow> obj \<Rightarrow> 'c plugin \<Rightarrow> event \<Rightarrow> 'c outcome" where
  "handle env compiler_options that ev =
     (case ev of
        EvRun \<Rightarrow> start env compiler_options that
      | EvWatchRun \<Rightarrow> start env compiler_options that
      | EvFailedModule \<Rightarrow>
          (if truthy (obj_get compiler_options ''bail'') then teardown env that
           else (that, [], None))
      | EvDone \<Rightarrow> on_done env that
      | EvExit \<Rightarrow>
          (if truthy (obj_get compiler_options ''watch'')
              \<and> obj_get (config that) ''installExitHandler'' \<noteq> JBool False
           then teardown env that
           else (that, [], None))
      | EvCompile source smap filePath \<Rightarrow> compile env that source smap filePath)"

text \<open>
  A run: each event comes with the environment it meets. The plugin outlives an exception
  of a handler, so the run goes on from the plugin as the handler left it.
\<close>

fun run :: "obj \<Rightarrow> 'c plugin \<Rightarrow> ('c env \<times> event) list \<Rightarrow> 'c plugin \<times> effect list" where
  "run compiler_options that [] = (that, [])"
| "run compiler_options that ((env, ev) # rest) =
     (case handle env compiler_options that ev of
        (that1, tr, thrown) \<Rightarrow>
          (case run compiler_options that1 rest of (that2, tr') \<Rightarrow> (that2, tr @ tr')))"

text \<open>Whether the first \<open>a\<close> of a trace comes before its first \<open>b\<close>, both occurring.\<close>

definition precedes :: "effect \<Rightarrow> effect \<Rightarrow> effect list \<Rightarrow> bool" where
  "precedes a b tr = (a \<in> set tr \<and> b \<in> set tr \<and> indexOf tr a < indexOf tr b)"

section \<open>A concrete environment\<close>

text \<open>
  To run the definitions, one instance of the parameters: a cache that is a table from file
  path to compiled path and error, where a file has changed when it has no entry; a disk
  given by the list of its files; a pool that starts and stops without error; workers and a
  loader pipeline that fail on \<open>bad.js\<close> only.
\<close>

type_synonym table_cache = "(string \<times> string option \<times> string option) list"

definition sample_env :: "(string \<times> string) list \<Rightarrow> table_cache env" where
  "sample_env files =
     \<lparr>toString = (\<lambda>v. if v = JNum (Finite 1) then ''1'' else ''?''),
      path_resolve = (\<lambda>parts. foldr (\<lambda>a b. if b = [] then a else a @ ''/'' @ b) parts []),
      mkdirSync = (\<lambda>dir. None),
      HappyFSCache = (\<lambda>pid cache_path loaders external. []),
      cache_load = (\<lambda>c. c),
      cache_save = (\<lambda>c. Inr c),
      hasChanged = (\<lambda>c filePath. map_of c filePath = None),
      hasErrored = (\<lambda>c filePath. case map_of c filePath of
                                      Some (compiled, Some e) \<Rightarrow> True | _ \<Rightarrow> False),
      getCompiledPath = (\<lambda>c filePath. case map_of c filePath of
                                          Some (Some compiled, e) \<Rightarrow> compiled | _ \<Rightarrow> []),
      invalidateEntryFor = (\<lambda>c filePath. AList.delete filePath c),
      updateMTimeFor = (\<lambda>c filePath compiled e. AList.update filePath (compiled, e) c),
      readFileSync = (\<lambda>file. case map_of files file of
                                 None \<Rightarrow> Inl (JErr ''ENOENT'') | Some contents \<Rightarrow> Inr contents),
      writeFileSync = (\<lambda>file contents. None),
      serialize = (\<lambda>v. Inr ''{}''),
      generateCompiledPath = (\<lambda>filePath. ''s--'' @ filePath),
      applyLoaders = (\<lambda>options source smap filePath.
                        if filePath = ''bad.js'' then Some (JErr ''SyntaxError'', [], JUndefined)
                        else Some (JNull, source, smap)),
      pool_start = (\<lambda>p. Some JUndefined),
      pool_stop = (\<lambda>p. None),
      thread_compile = (\<lambda>p filePath.
                          Some \<lparr>success = (filePath \<noteq> ''bad.js''),
                                compiledPath = ''.happypack/s--'' @ filePath\<rparr>),
      toNumber = (\<lambda>v. NaN),
      pkg_version = ''2.1.1'',
      HAPPY_DEBUG = False\<rparr>"

definition sample_files :: "(string \<times> string) list" where
  "sample_files =
     [(''.happypack/s--a.js'', ''compiled a''), (''.happypack/s--bad.js'', ''SyntaxError in bad'')]"

definition sample_userConfig :: obj where
  "sample_userConfig =
     [(''loaders'', JArr [JObj [(''path'', JStr ''x'')]]), (''threads'', JNum (Finite (24 / 10)))]"

text \<open>The plugin that \<open>new HappyPlugin(sample_userConfig)\<close> makes, with a cache of any contents.\<close>

definition sample_plugin :: "table_cache \<Rightarrow> table_cache plugin" where
  "sample_plugin c =
     \<lparr>plugin_id = ''1'',
      plugin_name = ''HappyPack'',
      state = \<lparr>started = False, initialBuildCompleted = False\<rparr>,
      config = [(''tempDir'', JStr ''.happypack''), (''threads'', JNum (Finite 3)),
                (''cache'', JBool True), (''cacheContext'', JObj []),
                (''installExitHandler'', JBool True),
                (''loaders'', JArr [JObj [(''path'', JStr ''x'')]]),
                (''optionsPath'', JStr ''.happypack/options--1.json'')],
      cache = c,
      threadPool = None,
      compilerOptions = JUndefined\<rparr>"

definition sample_compiler_options :: obj where
  "sample_compiler_options =
     [(''entry'', JStr ''./a.js''), (''watch'', JBool True), (''plugins'', JArr []),
      (''cache'', JBool False)]"

section \<open>Facts about the helpers\<close>

lemma indexOf_lower: "indexOf xs x \<ge> -1"
  by (induction xs) (auto simp: Let_def)

lemma indexOf_mem: "(indexOf xs x > -1) = (x \<in> set xs)"
proof (induction xs)
  case Nil
  then show ?case by simp
next
  case (Cons y ys)
  have "indexOf ys x \<ge> -1" by (rule indexOf_lower)
  with Cons show ?case by (auto simp: Let_def)
qed

lemma obj_get_update: "obj_get (AList.update k v al) k' = (if k' = k then v else obj_get al k')"
  by (simp add: obj_get_def update_conv')

section \<open>Facts about the lifecycle and the router\<close>

lemma teardown_not_started: "\<not> started (state that) \<Longrightarrow> teardown env that = (that, [], None)"
  by (simp add: teardown_def)

lemma teardown_returns:
  assumes "started (state that)"
    and "truthy (obj_get (config that) ''cache'') \<longrightarrow> cache_save env (cache that) = Inr c"
    and "\<forall>p. threadPool that = Some p \<longrightarrow> pool_stop env p = None"
  shows "teardown env that =
     ((if truthy (obj_get (config that) ''cache'') then that\<lparr>cache := c\<rparr> else that)
        \<lparr>state := (state that)\<lparr>started := False\<rparr>\<rparr>,
      (if truthy (obj_get (config that) ''cache'') then [CacheSave] else [])
      @ (case threadPool that of None \<Rightarrow> [] | Some p \<Rightarrow> [PoolStop]),
      None)"
  using assms by (cases "threadPool that") (simp_all add: teardown_def)

lemma teardown_save_throws:
  "started (state that) \<Longrightarrow> truthy (obj_get (config that) ''cache'') \<Longrightarrow>
   cache_save env (cache that) = Inl e \<Longrightarrow> teardown env that = (that, [], Some e)"
  by (simp add: teardown_def)

lemma teardown_stop_throws:
  assumes "started (state that)"
    and "truthy (obj_get (config that) ''cache'') \<longrightarrow> cache_save env (cache that) = Inr c"
    and "threadPool that = Some p" and "pool_stop env p = Some e"
  shows "teardown env that =
     ((if truthy (obj_get (config that) ''cache'') then that\<lparr>cache := c\<rparr> else that),
      (if truthy (obj_get (config that) ''cache'') then [CacheSave] else []), Some e)"
  using assms by (simp add: teardown_def)

lemma teardown_stops:
  "snd (snd (teardown env that)) = None \<Longrightarrow> \<not> started (state (fst (teardown env that)))"
  by (auto simp add: teardown_def split: if_splits sum.splits option.splits prod.splits)

lemma teardown_started_before:
  "started (state (fst (teardown env that))) \<Longrightarrow> started (state that)"
  by (simp add: teardown_def split: if_splits)

lemma teardown_quiet:
  "\<forall>c. \<exists>c'. cache_save env c = Inr c' \<Longrightarrow> \<forall>p. pool_stop env p = None \<Longrightarrow>
   snd (snd (teardown env that)) = None"
proof -
  assume a: "\<forall>c. \<exists>c'. cache_save env c = Inr c'" and b: "\<forall>p. pool_stop env p = None"
  from a obtain c' where "cache_save env (cache that) = Inr c'" by blast
  with b show ?thesis
    by (simp add: teardown_def split: option.splits)
qed

lemma teardown_flag:
  "initialBuildCompleted (state (fst (teardown env that))) = initialBuildCompleted (state that)"
  by (simp add: teardown_def split: sum.splits option.splits prod.splits)

lemma teardown_pool: "threadPool (fst (teardown env that)) = threadPool that"
  by (simp add: teardown_def split: sum.splits option.splits prod.splits)

lemma on_done_cases:
  "on_done env that =
     (if snd (snd (teardown env that)) = None
      then ((fst (teardown env that))
              \<lparr>state := (state (fst (teardown env that)))\<lparr>initialBuildCompleted := True\<rparr>\<rparr>,
            fst (snd (teardown env that)), None)
      else teardown env that)"
  by (cases "teardown env that" rule: prod_cases3) (auto simp: on_done_def)

lemma on_done_flag:
  "snd (snd (on_done env that)) = None \<Longrightarrow> initialBuildCompleted (state (fst (on_done env that)))"
  by (simp add: on_done_cases split: if_splits)

lemma on_done_quiet_flag:
  "\<forall>c. \<exists>c'. cache_save env c = Inr c' \<Longrightarrow> \<forall>p. pool_stop env p = None \<Longrightarrow>
   initialBuildCompleted (state (fst (on_done env that)))"
  by (simp add: on_done_cases teardown_quiet)

lemma on_done_keeps_flag:
  "initialBuildCompleted (state that) \<Longrightarrow> initialBuildCompleted (state (fst (on_done env that)))"
  by (simp add: on_done_cases teardown_flag)

lemma on_done_started_before:
  "started (state (fst (on_done env that))) \<Longrightarrow> started (state that)"
  by (simp add: on_done_cases split: if_splits) (auto dest: teardown_started_before)

lemma on_done_pool: "threadPool (fst (on_done env that)) = threadPool that"
  by (simp add: on_done_cases teardown_pool)

lemma start_flag: "initialBuildCompleted (state (fst (start env co that))) = initialBuildCompleted (state that)"
  by (simp add: start_def Let_def split: sum.splits option.splits)

lemma start_pool: "started (state (fst (start env co that))) \<Longrightarrow> started (state that) \<or> threadPool (fst (start env co that)) \<noteq> None"
  by (auto simp add: start_def Let_def split: sum.splits option.splits if_splits)

lemma start_keeps_pool: "threadPool that \<noteq> None \<Longrightarrow> threadPool (fst (start env co that)) \<noteq> None"
  by (auto simp add: start_def Let_def split: sum.splits option.splits if_splits)

lemma background_state: "state (fst (compileInBackground env that source smap filePath)) = state that"
  by (simp add: compileInBackground_def Let_def split: sum.splits option.splits)

lemma background_pool: "threadPool (fst (compileInBackground env that source smap filePath)) = threadPool that"
  by (simp add: compileInBackground_def Let_def split: sum.splits option.splits)

lemma foreground_state: "state (fst (compileInForeground env that source smap filePath)) = state that"
  by (simp add: compileInForeground_def Let_def split: sum.splits option.splits jsval.splits prod.splits)

lemma foreground_pool: "threadPool (fst (compileInForeground env that source smap filePath)) = threadPool that"
  by (simp add: compileInForeground_def Let_def split: sum.splits option.splits jsval.splits prod.splits)

lemma compile_state: "state (fst (compile env that source smap filePath)) = state that"
  by (simp add: compile_def background_state foreground_state)

lemma compile_pool: "threadPool (fst (compile env that source smap filePath)) = threadPool that"
  by (simp add: compile_def background_pool foreground_pool)

lemma handle_keeps_flag:
  "initialBuildCompleted (state that) \<Longrightarrow>
   initialBuildCompleted (state (fst (handle env co that ev)))"
  by (cases ev) (simp_all add: handle_def start_flag teardown_flag on_done_keeps_flag compile_state)

lemma handle_flag_needs_done:
  "ev \<noteq> EvDone \<Longrightarrow>
   initialBuildCompleted (state (fst (handle env co that ev))) = initialBuildCompleted (state that)"
  by (cases ev) (simp_all add: handle_def start_flag teardown_flag compile_state)

lemma handle_quiet_flag:
  "\<forall>c. \<exists>c'. cache_save env c = Inr c' \<Longrightarrow> \<forall>p. pool_stop env p = None \<Longrightarrow>
   initialBuildCompleted (state (fst (handle env co that ev)))
     = (initialBuildCompleted (state that) \<or> ev = EvDone)"
  by (cases ev)
     (simp_all add: handle_def start_flag teardown_flag on_done_quiet_flag compile_state)

lemma handle_pool_inv:
  assumes "started (state that) \<longrightarrow> threadPool that \<noteq> None"
  shows "started (state (fst (handle env co that ev)))
           \<longrightarrow> threadPool (fst (handle env co that ev)) \<noteq> None"
proof (cases ev)
  case EvRun
  then show ?thesis using assms start_pool[of env co that] start_keeps_pool[of that env co]
    by (auto simp: handle_def)
next
  case EvWatchRun
  then show ?thesis using assms start_pool[of env co that] start_keeps_pool[of that env co]
    by (auto simp: handle_def)
next
  case EvFailedModule
  then show ?thesis using assms teardown_started_before[of env that]
    by (auto simp: handle_def teardown_pool)
next
  case EvDone
  then show ?thesis using assms on_done_started_before[of env that]
    by (auto simp: handle_def on_done_pool)
next
  case EvExit
  then show ?thesis using assms teardown_started_before[of env that]
    by (auto simp: handle_def teardown_pool)
next
  case (EvCompile source smap filePath)
  then show ?thesis using assms by (simp add: handle_def compile_state compile_pool)
qed

lemma run_Cons_fst:
  "fst (run co that ((env, ev) # rest)) = fst (run co (fst (handle env co that ev)) rest)"
  by (simp split: prod.splits)

lemma run_Cons_snd:
  "snd (run co that ((env, ev) # rest))
     = fst (snd (handle env co that ev)) @ snd (run co (fst (handle env co that ev)) rest)"
  by (simp split: prod.splits)

lemma run_snoc_state:
  "fst (run co that (evs @ later)) = fst (run co (fst (run co that evs)) later)"
proof (induction evs arbitrary: that)
  case Nil
  then show ?case by simp
next
  case (Cons a evs)
  obtain env ev where a: "a = (env, ev)" by (cases a)
  show ?case using Cons[of "fst (handle env co that ev)"]
    by (simp only: a append_Cons run_Cons_fst)
qed

lemma run_keeps_flag:
  "initialBuildCompleted (state that) \<Longrightarrow> initialBuildCompleted (state (fst (run co that evs)))"
proof (induction evs arbitrary: that)
  case Nil
  then show ?case by simp
next
  case (Cons a evs)
  obtain env ev where a: "a = (env, ev)" by (cases a)
  show ?case unfolding a run_Cons_fst
    by (rule Cons.IH) (rule handle_keeps_flag[OF Cons.prems])
qed

lemma run_flag_needs_done:
  "EvDone \<notin> snd ` set evs \<Longrightarrow>
   initialBuildCompleted (state (fst (run co that evs))) = initialBuildCompleted (state that)"
proof (induction evs arbitrary: that)
  case Nil
  then show ?case by simp
next
  case (Cons a evs)
  obtain env ev where a: "a = (env, ev)" by (cases a)
  from Cons.prems a have ev: "ev \<noteq> EvDone" and rest: "EvDone \<notin> snd ` set evs" by auto
  show ?case unfolding a run_Cons_fst
    using Cons.IH[OF rest, of "fst (handle env co that ev)"] handle_flag_needs_done[OF ev]
    by simp
qed

lemma run_quiet_flag:
  "\<forall>(env, ev) \<in> set evs. (\<forall>c. \<exists>c'. cache_save env c = Inr c') \<and> (\<forall>p. pool_stop env p = None) \<Longrightarrow>
   initialBuildCompleted (state (fst (run co that evs)))
     = (initialBuildCompleted (state that) \<or> EvDone \<in> snd ` set evs)"
proof (induction evs arbitrary: that)
  case Nil
  then show ?case by simp
next
  case (Cons a evs)
  obtain env ev where a: "a = (env, ev)" by (cases a)
  from Cons.prems a have q: "\<forall>c. \<exists>c'. cache_save env c = Inr c'" "\<forall>p. pool_stop env p = None"
    and rest: "\<forall>(env, ev) \<in> set evs. (\<forall>c. \<exists>c'. cache_save env c = Inr c') \<and> (\<forall>p. pool_stop env p = None)"
    by auto
  show ?case unfolding a run_Cons_fst
    using Cons.IH[OF rest, of "fst (handle env co that ev)"] handle_quiet_flag[OF q, of co that ev]
    by auto
qed

lemma run_pool_inv:
  "started (state that) \<longrightarrow> threadPool that \<noteq> None \<Longrightarrow>
   started (state (fst (run co that evs))) \<longrightarrow> threadPool (fst (run co that evs)) \<noteq> None"
proof (induction evs arbitrary: that)
  case Nil
  then show ?case by simp
next
  case (Cons a evs)
  obtain env ev where a: "a = (env, ev)" by (cases a)
  have eq: "fst (run co that (a # evs)) = fst (run co (fst (handle env co that ev)) evs)"
    by (simp add: a split: prod.splits)
  show ?case unfolding eq
    by (rule Cons.IH) (rule handle_pool_inv[OF Cons.prems])
qed

lemma HappyPlugin_fresh:
  "HappyPlugin env uid userConfig = Inr (that, uid') \<Longrightarrow>
   state that = \<lparr>started = False, initialBuildCompleted = False\<rparr> \<and> threadPool that = None"
  by (auto simp: HappyPlugin_def Let_def split: sum.splits jsval.splits option.splits if_splits)

lemma apply_plugin_fresh:
  "HappyPlugin env uid userConfig = Inr (that, uid') \<Longrightarrow>
   \<not> started (state (apply_plugin that co)) \<and> \<not> initialBuildCompleted (state (apply_plugin that co))"
  using HappyPlugin_fresh[of env uid userConfig that uid'] by (simp add: apply_plugin_def)

lemma sample_construction:
  "HappyPlugin (sample_env sample_files) 0 sample_userConfig = Inr (sample_plugin [], 1)"
  by (simp add: HappyPlugin_def sample_env_def sample_userConfig_def sample_plugin_def parseAndValidateOptions_def
     plugin_schema_def plain_def hasOwnProperty_def getDefaults_def Object_keys_def parse_key_def obj_get_def
     validate_loaders_def String_of_def Number_of_def ceiling_eq_iff)

lemma sample_started:
  "fst (run sample_compiler_options (apply_plugin (sample_plugin []) sample_compiler_options)
          [(sample_env sample_files, EvRun)])
     = (sample_plugin [])\<lparr>threadPool := Some (HappyThreadPool (config (sample_plugin []))),
                            state := \<lparr>started = True, initialBuildCompleted = False\<rparr>,
                            compilerOptions := JObj sample_compiler_options\<rparr>"
  by (simp add: handle_def start_def write_options_def Let_def sample_env_def sample_plugin_def
        obj_get_def apply_plugin_def)

section \<open>C1: the order of the steps of \<open>start\<close>\<close>

text \<open>
  C1, as the code has it. When the plugin is neither started nor past its initial build
  and the snapshot serializes to \<open>text\<close>, \<open>start\<close> first writes the snapshot to
  \<open>optionsPath\<close>; if the write throws \<open>e\<close>, the readiness callback gets \<open>e\<close> and
  the plugin is unchanged: not started, no pool made, the cache not loaded. Otherwise the pool
  is constructed, then the cache is loaded when caching is enabled, and only then the pool is
  started. The readiness callback is called when the pool answers and not before: with the
  pool's error, the plugin staying not started, or with no argument once \<open>started\<close> is set.
\<close>

theorem start_order:
  assumes "\<not> started (state that)" and "\<not> initialBuildCompleted (state that)"
    and "serialize env (JObj [(''loaders'', obj_get (config that) ''loaders''),
                              (''compilerOptions'', JObj (extractOptions compiler_options))])
           = Inr text"
    and "obj_get (config that) ''optionsPath'' = JStr optionsPath"
  shows "let p = HappyThreadPool (config that);
             caching = truthy (obj_get (config that) ''cache'');
             that2 = (if caching then that\<lparr>threadPool := Some p, cache := cache_load env (cache that)\<rparr>
                      else that\<lparr>threadPool := Some p\<rparr>);
             tr = [firing_up env that, FsWrite optionsPath text, PoolConstruct]
                  @ (if caching then [CacheLoad] else []) @ [PoolStart]
         in (\<forall>e. writeFileSync env optionsPath text = Some e
               \<longrightarrow> start env compiler_options that
                     = (that, [firing_up env that] @ unable_to_serialize compiler_options that
                              @ [Callback [e]], None))
          \<and> (writeFileSync env optionsPath text = None \<and> pool_start env p = None
               \<longrightarrow> start env compiler_options that = (that2, tr, None))
          \<and> (\<forall>err. writeFileSync env optionsPath text = None \<and> pool_start env p = Some err
                     \<and> truthy err
               \<longrightarrow> start env compiler_options that = (that2, tr @ [Callback [err]], None))
          \<and> (\<forall>err. writeFileSync env optionsPath text = None \<and> pool_start env p = Some err
                     \<and> \<not> truthy err
               \<longrightarrow> start env compiler_options that
                     = (that2\<lparr>state := (state that)\<lparr>started := True\<rparr>\<rparr>,
                        tr @ [all_set that, Callback []], None))"
  using assms
  by (auto simp add: start_def write_options_def Let_def all_set_def)

text \<open>
  C1, witness: the sample plugin, with caching enabled and a pool that starts without error.
\<close>

theorem start_order_witness:
  "\<not> started (state (sample_plugin [])) \<and> \<not> initialBuildCompleted (state (sample_plugin []))
   \<and> start (sample_env sample_files) sample_compiler_options (sample_plugin [])
       = ((sample_plugin [])\<lparr>threadPool := Some (HappyThreadPool (config (sample_plugin []))),
                              state := \<lparr>started = True, initialBuildCompleted = False\<rparr>\<rparr>,
          [firing_up (sample_env sample_files) (sample_plugin []),
           FsWrite ''.happypack/options--1.json'' ''{}'', PoolConstruct, CacheLoad, PoolStart,
           all_set (sample_plugin []), Callback []],
          None)"
proof -
  have h1: "\<not> started (state (sample_plugin []))" by (simp add: sample_plugin_def)
  have h2: "\<not> initialBuildCompleted (state (sample_plugin []))" by (simp add: sample_plugin_def)
  have h3: "serialize (sample_env sample_files)
              (JObj [(''loaders'', obj_get (config (sample_plugin [])) ''loaders''),
                     (''compilerOptions'', JObj (extractOptions sample_compiler_options))])
            = Inr ''{}''"
    by (simp add: sample_env_def)
  have h4: "obj_get (config (sample_plugin [])) ''optionsPath'' = JStr ''.happypack/options--1.json''"
    by (simp add: sample_plugin_def obj_get_def)
  have c: "truthy (obj_get (config (sample_plugin [])) ''cache'')"
    by (simp add: sample_plugin_def obj_get_def)
  have w: "writeFileSync (sample_env sample_files) ''.happypack/options--1.json'' ''{}'' = None"
    by (simp add: sample_env_def)
  have p: "pool_start (sample_env sample_files) (HappyThreadPool (config (sample_plugin []))) = Some JUndefined"
    by (simp add: sample_env_def)
  have l: "cache_load (sample_env sample_files) [] = []" by (simp add: sample_env_def)
  have s: "state (sample_plugin []) = \<lparr>started = False, initialBuildCompleted = False\<rparr>"
     and k: "cache (sample_plugin []) = []"
    by (simp_all add: sample_plugin_def)
  from start_order[OF h1 h2 h3 h4] have
    "start (sample_env sample_files) sample_compiler_options (sample_plugin [])
       = ((sample_plugin [])\<lparr>threadPool := Some (HappyThreadPool (config (sample_plugin []))),
                              state := \<lparr>started = True, initialBuildCompleted = False\<rparr>\<rparr>,
          [firing_up (sample_env sample_files) (sample_plugin []),
           FsWrite ''.happypack/options--1.json'' ''{}'', PoolConstruct, CacheLoad, PoolStart,
           all_set (sample_plugin []), Callback []],
          None)"
    by (simp add: Let_def c w p l s k)
  with h1 h2 show ?thesis by simp
qed

text \<open>
  C1, counterexample to the order the claim gives (the cache loaded only after the pool has
  started and signalled ready): on the sample plugin the cache is loaded before the pool is
  started, not after; and with a pool that never signals ready the cache is loaded all the
  same.
\<close>

theorem start_order_counterexample:
  "precedes CacheLoad PoolStart
     (fst (snd (start (sample_env sample_files) sample_compiler_options (sample_plugin []))))
   \<and> \<not> precedes PoolStart CacheLoad
     (fst (snd (start (sample_env sample_files) sample_compiler_options (sample_plugin []))))
   \<and> fst (snd (start ((sample_env sample_files)\<lparr>pool_start := (\<lambda>p. None)\<rparr>)
                  sample_compiler_options (sample_plugin [])))
      = [firing_up (sample_env sample_files) (sample_plugin []),
         FsWrite ''.happypack/options--1.json'' ''{}'', PoolConstruct, CacheLoad, PoolStart]"
  by (simp add: start_def write_options_def Let_def all_set_def firing_up_def precedes_def
        sample_env_def sample_plugin_def obj_get_def)

section \<open>C2: routing by \<open>initialBuildCompleted\<close>\<close>

text \<open>
  C2. For a plugin made by the constructor and any run of events. Before any \<open>done\<close>
  event the flag \<open>initialBuildCompleted\<close> is false, and while it is false \<open>compile\<close>
  is \<open>compileInBackground\<close>. The handler of \<open>done\<close> sets the flag whenever it returns.
  Once the flag holds it holds after any further events, and every \<open>compile\<close> from then
  on is \<open>compileInForeground\<close>. In environments where saving the cache and stopping the
  pool return, the flag holds exactly when a \<open>done\<close> event has been handled, so
  \<open>compile\<close> is \<open>compileInForeground\<close> after a \<open>done\<close> event and
  \<open>compileInBackground\<close> before.
\<close>

theorem compile_routing:
  assumes "HappyPlugin env0 uid userConfig = Inr (that0, uid')"
  shows "(EvDone \<notin> snd ` set evs
           \<longrightarrow> \<not> initialBuildCompleted (state (fst (run co (apply_plugin that0 co) evs)))
              \<and> compile env (fst (run co (apply_plugin that0 co) evs)) source smap filePath
                  = compileInBackground env (fst (run co (apply_plugin that0 co) evs))
                      source smap filePath)
    \<and> (\<not> initialBuildCompleted (state (fst (run co (apply_plugin that0 co) evs)))
           \<longrightarrow> compile env (fst (run co (apply_plugin that0 co) evs)) source smap filePath
                  = compileInBackground env (fst (run co (apply_plugin that0 co) evs))
                      source smap filePath)
    \<and> (snd (snd (on_done env (fst (run co (apply_plugin that0 co) evs)))) = None
           \<longrightarrow> initialBuildCompleted
                 (state (fst (on_done env (fst (run co (apply_plugin that0 co) evs))))))
    \<and> (initialBuildCompleted (state (fst (run co (apply_plugin that0 co) evs)))
           \<longrightarrow> initialBuildCompleted (state (fst (run co (apply_plugin that0 co) (evs @ later))))
              \<and> compile env (fst (run co (apply_plugin that0 co) (evs @ later))) source smap filePath
                  = compileInForeground env (fst (run co (apply_plugin that0 co) (evs @ later)))
                      source smap filePath)
    \<and> ((\<forall>(e, ev) \<in> set evs. (\<forall>c. \<exists>c'. cache_save e c = Inr c') \<and> (\<forall>p. pool_stop e p = None))
           \<longrightarrow> initialBuildCompleted (state (fst (run co (apply_plugin that0 co) evs)))
                  = (EvDone \<in> snd ` set evs)
              \<and> compile env (fst (run co (apply_plugin that0 co) evs)) source smap filePath
                  = (if EvDone \<in> snd ` set evs
                     then compileInForeground env (fst (run co (apply_plugin that0 co) evs))
                            source smap filePath
                     else compileInBackground env (fst (run co (apply_plugin that0 co) evs))
                            source smap filePath))"
proof -
  let ?that = "apply_plugin that0 co"
  have fresh: "\<not> initialBuildCompleted (state ?that)"
    using apply_plugin_fresh[OF assms] by simp
  have before: "EvDone \<notin> snd ` set evs
           \<longrightarrow> \<not> initialBuildCompleted (state (fst (run co ?that evs)))
              \<and> compile env (fst (run co ?that evs)) source smap filePath
                  = compileInBackground env (fst (run co ?that evs)) source smap filePath"
    using fresh by (simp add: run_flag_needs_done compile_def)
  have unset: "\<not> initialBuildCompleted (state (fst (run co ?that evs)))
           \<longrightarrow> compile env (fst (run co ?that evs)) source smap filePath
                  = compileInBackground env (fst (run co ?that evs)) source smap filePath"
    by (simp add: compile_def)
  have sets: "snd (snd (on_done env (fst (run co ?that evs)))) = None
           \<longrightarrow> initialBuildCompleted (state (fst (on_done env (fst (run co ?that evs)))))"
    using on_done_flag by blast
  have keep: "initialBuildCompleted (state (fst (run co ?that evs)))
           \<longrightarrow> initialBuildCompleted (state (fst (run co ?that (evs @ later))))
              \<and> compile env (fst (run co ?that (evs @ later))) source smap filePath
                  = compileInForeground env (fst (run co ?that (evs @ later))) source smap filePath"
    using run_keeps_flag[of "fst (run co ?that evs)" co later]
    by (simp add: run_snoc_state compile_def)
  have quiet: "(\<forall>(e, ev) \<in> set evs. (\<forall>c. \<exists>c'. cache_save e c = Inr c') \<and> (\<forall>p. pool_stop e p = None))
           \<longrightarrow> initialBuildCompleted (state (fst (run co ?that evs))) = (EvDone \<in> snd ` set evs)
              \<and> compile env (fst (run co ?that evs)) source smap filePath
                  = (if EvDone \<in> snd ` set evs
                     then compileInForeground env (fst (run co ?that evs)) source smap filePath
                     else compileInBackground env (fst (run co ?that evs)) source smap filePath)"
  proof
    assume q: "\<forall>(e, ev) \<in> set evs. (\<forall>c. \<exists>c'. cache_save e c = Inr c') \<and> (\<forall>p. pool_stop e p = None)"
    have f: "initialBuildCompleted (state (fst (run co ?that evs))) = (EvDone \<in> snd ` set evs)"
      using run_quiet_flag[OF q, of co ?that] fresh by simp
    show "initialBuildCompleted (state (fst (run co ?that evs))) = (EvDone \<in> snd ` set evs)
              \<and> compile env (fst (run co ?that evs)) source smap filePath
                  = (if EvDone \<in> snd ` set evs
                     then compileInForeground env (fst (run co ?that evs)) source smap filePath
                     else compileInBackground env (fst (run co ?that evs)) source smap filePath)"
      unfolding compile_def f by simp
  qed
  from before unset sets keep quiet show ?thesis by blast
qed

text \<open>C2, witness: the sample plugin, after \<open>run, done\<close> and after \<open>run\<close> alone.\<close>

theorem compile_routing_witness:
  "HappyPlugin (sample_env sample_files) 0 sample_userConfig = Inr (sample_plugin [], 1)
   \<and> initialBuildCompleted (state (fst (run sample_compiler_options (apply_plugin (sample_plugin []) sample_compiler_options)
         [(sample_env sample_files, EvRun), (sample_env sample_files, EvDone)])))
   \<and> compile (sample_env sample_files)
        (fst (run sample_compiler_options (apply_plugin (sample_plugin []) sample_compiler_options)
                [(sample_env sample_files, EvRun), (sample_env sample_files, EvDone)]))
        ''src a'' JNull ''a.js''
      = compileInForeground (sample_env sample_files)
        (fst (run sample_compiler_options (apply_plugin (sample_plugin []) sample_compiler_options)
                [(sample_env sample_files, EvRun), (sample_env sample_files, EvDone)]))
        ''src a'' JNull ''a.js''
   \<and> compile (sample_env sample_files)
        (fst (run sample_compiler_options (apply_plugin (sample_plugin []) sample_compiler_options) [(sample_env sample_files, EvRun)]))
        ''src a'' JNull ''a.js''
      = compileInBackground (sample_env sample_files)
        (fst (run sample_compiler_options (apply_plugin (sample_plugin []) sample_compiler_options) [(sample_env sample_files, EvRun)]))
        ''src a'' JNull ''a.js''"
proof -
  let ?env = "sample_env sample_files"
  note h = sample_construction
  have a: "EvDone \<in> snd ` set [(?env, EvRun), (?env, EvDone)]"
    by simp
  have b: "EvDone \<notin> snd ` set [(?env, EvRun)]"
    by simp
  have q: "\<forall>(e, ev) \<in> set [(?env, EvRun), (?env, EvDone)].
             (\<forall>c. \<exists>c'. cache_save e c = Inr c') \<and> (\<forall>p. pool_stop e p = None)"
    by (simp add: sample_env_def)
  from compile_routing[OF h, of "[(?env, EvRun), (?env, EvDone)]" sample_compiler_options
        ?env "''src a''" JNull "''a.js''" "[]"] q
  have "initialBuildCompleted (state (fst (run sample_compiler_options
            (apply_plugin (sample_plugin []) sample_compiler_options) [(?env, EvRun), (?env, EvDone)])))
          = (EvDone \<in> snd ` set [(?env, EvRun), (?env, EvDone)])
        \<and> compile ?env (fst (run sample_compiler_options
            (apply_plugin (sample_plugin []) sample_compiler_options) [(?env, EvRun), (?env, EvDone)]))
            ''src a'' JNull ''a.js''
          = (if EvDone \<in> snd ` set [(?env, EvRun), (?env, EvDone)]
             then compileInForeground ?env (fst (run sample_compiler_options
                    (apply_plugin (sample_plugin []) sample_compiler_options) [(?env, EvRun), (?env, EvDone)]))
                    ''src a'' JNull ''a.js''
             else compileInBackground ?env (fst (run sample_compiler_options
                    (apply_plugin (sample_plugin []) sample_compiler_options) [(?env, EvRun), (?env, EvDone)]))
                    ''src a'' JNull ''a.js'')"
    by blast
  then have fg: "initialBuildCompleted (state (fst (run sample_compiler_options
            (apply_plugin (sample_plugin []) sample_compiler_options) [(?env, EvRun), (?env, EvDone)])))
        \<and> compile ?env (fst (run sample_compiler_options
            (apply_plugin (sample_plugin []) sample_compiler_options) [(?env, EvRun), (?env, EvDone)]))
            ''src a'' JNull ''a.js''
          = compileInForeground ?env (fst (run sample_compiler_options
                    (apply_plugin (sample_plugin []) sample_compiler_options) [(?env, EvRun), (?env, EvDone)]))
                    ''src a'' JNull ''a.js''"
    unfolding if_P[OF a] using a by blast
  from compile_routing[OF h, of "[(?env, EvRun)]" sample_compiler_options
        ?env "''src a''" JNull "''a.js''" "[]"] b
  have bg: "compile ?env (fst (run sample_compiler_options
            (apply_plugin (sample_plugin []) sample_compiler_options) [(?env, EvRun)]))
            ''src a'' JNull ''a.js''
          = compileInBackground ?env (fst (run sample_compiler_options
                    (apply_plugin (sample_plugin []) sample_compiler_options) [(?env, EvRun)]))
                    ''src a'' JNull ''a.js''"
    by blast
  from h fg bg show ?thesis by blast
qed

section \<open>C3: the cache hit of \<open>compileInBackground\<close>\<close>

lemma background_hit:
  "\<not> hasChanged env (cache that) filePath \<Longrightarrow> \<not> hasErrored env (cache that) filePath \<Longrightarrow>
   readFileSync env (getCompiledPath env (cache that) filePath) = Inr contents \<Longrightarrow>
   compileInBackground env that source smap filePath
     = (that, [FsRead (getCompiledPath env (cache that) filePath),
               Callback [JNull, JStr contents]], None)"
  by (simp add: compileInBackground_def)

lemma background_hit_cases:
  "\<not> hasChanged env (cache that) filePath \<Longrightarrow> \<not> hasErrored env (cache that) filePath \<Longrightarrow>
   compileInBackground env that source smap filePath
     = (case readFileSync env (getCompiledPath env (cache that) filePath) of
          Inl e \<Rightarrow> (that, [], Some e)
        | Inr contents \<Rightarrow>
            (that, [FsRead (getCompiledPath env (cache that) filePath),
                    Callback [JNull, JStr contents]], None))"
  by (simp add: compileInBackground_def)

lemma run_hits:
  assumes "\<not> initialBuildCompleted (state that)"
    and "\<forall>(env, ev) \<in> set evs. \<exists>source smap filePath.
            ev = EvCompile source smap filePath
            \<and> \<not> hasChanged env (cache that) filePath \<and> \<not> hasErrored env (cache that) filePath"
  shows "run co that evs
           = (that,
              concat (map (\<lambda>(env, ev).
                             case ev of
                               EvCompile source smap filePath \<Rightarrow>
                                 (case readFileSync env (getCompiledPath env (cache that) filePath) of
                                    Inl e \<Rightarrow> []
                                  | Inr contents \<Rightarrow>
                                      [FsRead (getCompiledPath env (cache that) filePath),
                                       Callback [JNull, JStr contents]])
                             | _ \<Rightarrow> [])
                          evs))"
  using assms(2)
proof (induction evs)
  case Nil
  then show ?case by simp
next
  case (Cons a evs)
  obtain env ev where a: "a = (env, ev)" by (cases a)
  from Cons.prems a obtain source smap filePath where
    ev: "ev = EvCompile source smap filePath"
    and hit: "\<not> hasChanged env (cache that) filePath" "\<not> hasErrored env (cache that) filePath"
    by auto
  have h: "handle env co that ev
            = (case readFileSync env (getCompiledPath env (cache that) filePath) of
                 Inl e \<Rightarrow> (that, [], Some e)
               | Inr contents \<Rightarrow>
                   (that, [FsRead (getCompiledPath env (cache that) filePath),
                           Callback [JNull, JStr contents]], None))"
    using assms(1) by (simp add: ev handle_def compile_def background_hit_cases[OF hit])
  from Cons.prems have rest: "\<forall>(env, ev) \<in> set evs. \<exists>source smap filePath.
            ev = EvCompile source smap filePath
            \<and> \<not> hasChanged env (cache that) filePath \<and> \<not> hasErrored env (cache that) filePath"
    by simp
  have ih: "run co that evs
           = (that,
              concat (map (\<lambda>(env, ev).
                             case ev of
                               EvCompile source smap filePath \<Rightarrow>
                                 (case readFileSync env (getCompiledPath env (cache that) filePath) of
                                    Inl e \<Rightarrow> []
                                  | Inr contents \<Rightarrow>
                                      [FsRead (getCompiledPath env (cache that) filePath),
                                       Callback [JNull, JStr contents]])
                             | _ \<Rightarrow> [])
                          evs))"
    by (rule Cons.IH[OF rest])
  show ?case
  proof (cases "readFileSync env (getCompiledPath env (cache that) filePath)")
    case (Inl e)
    with h have h': "handle env co that ev = (that, [], Some e)" by simp
    show ?thesis using ih unfolding a run.simps h' by (simp add: ev Inl)
  next
    case (Inr contents)
    with h have h': "handle env co that ev
                      = (that, [FsRead (getCompiledPath env (cache that) filePath),
                                Callback [JNull, JStr contents]], None)"
      by simp
    show ?thesis using ih unfolding a run.simps h' by (simp add: ev Inr)
  qed
qed

lemma hits_trace_kinds:
  "\<forall>eff \<in> set (concat (map (\<lambda>(env, ev).
                             case ev of
                               EvCompile source smap filePath \<Rightarrow>
                                 (case readFileSync env (getCompiledPath env c filePath) of
                                    Inl e \<Rightarrow> []
                                  | Inr contents \<Rightarrow>
                                      [FsRead (getCompiledPath env c filePath),
                                       Callback [JNull, JStr contents]])
                             | _ \<Rightarrow> [])
                          evs)).
      (\<exists>file. eff = FsRead file) \<or> (\<exists>contents. eff = Callback [JNull, JStr contents])"
  by (auto split: event.splits sum.splits)

text \<open>
  C3, as the code has it. When the cache reports the path neither changed nor errored,
  \<open>compileInBackground\<close> reads the file at the recorded compiled path and does nothing
  else to the plugin: nothing is invalidated, updated or sent to the pool. When the read
  succeeds the callback gets \<open>(null, contents)\<close>; when the read throws, that exception
  is thrown and the callback is not called. A sequence of such \<open>compile\<close> calls before
  the initial build has completed leaves the plugin unchanged, and its effects are exactly,
  request by request, the read and the callback of each request whose file can be read.
\<close>

theorem compileInBackground_cache_hit:
  "(\<not> hasChanged env (cache that) filePath \<and> \<not> hasErrored env (cache that) filePath
     \<longrightarrow> compileInBackground env that source smap filePath
            = (case readFileSync env (getCompiledPath env (cache that) filePath) of
                 Inl e \<Rightarrow> (that, [], Some e)
               | Inr contents \<Rightarrow>
                   (that, [FsRead (getCompiledPath env (cache that) filePath),
                           Callback [JNull, JStr contents]], None)))
   \<and> (\<not> initialBuildCompleted (state that)
      \<and> (\<forall>(env, ev) \<in> set evs. \<exists>source smap filePath.
            ev = EvCompile source smap filePath
            \<and> \<not> hasChanged env (cache that) filePath \<and> \<not> hasErrored env (cache that) filePath)
     \<longrightarrow> run co that evs
           = (that,
              concat (map (\<lambda>(env, ev).
                             case ev of
                               EvCompile source smap filePath \<Rightarrow>
                                 (case readFileSync env (getCompiledPath env (cache that) filePath) of
                                    Inl e \<Rightarrow> []
                                  | Inr contents \<Rightarrow>
                                      [FsRead (getCompiledPath env (cache that) filePath),
                                       Callback [JNull, JStr contents]])
                             | _ \<Rightarrow> [])
                          evs))
         \<and> (\<forall>eff \<in> set (snd (run co that evs)).
               (\<exists>file. eff = FsRead file) \<or> (\<exists>contents. eff = Callback [JNull, JStr contents])))"
proof -
  have a: "\<not> hasChanged env (cache that) filePath \<and> \<not> hasErrored env (cache that) filePath
     \<longrightarrow> compileInBackground env that source smap filePath
            = (case readFileSync env (getCompiledPath env (cache that) filePath) of
                 Inl e \<Rightarrow> (that, [], Some e)
               | Inr contents \<Rightarrow>
                   (that, [FsRead (getCompiledPath env (cache that) filePath),
                           Callback [JNull, JStr contents]], None))"
    using background_hit_cases by blast
  have b: "run co that evs
           = (that,
              concat (map (\<lambda>(env, ev).
                             case ev of
                               EvCompile source smap filePath \<Rightarrow>
                                 (case readFileSync env (getCompiledPath env (cache that) filePath) of
                                    Inl e \<Rightarrow> []
                                  | Inr contents \<Rightarrow>
                                      [FsRead (getCompiledPath env (cache that) filePath),
                                       Callback [JNull, JStr contents]])
                             | _ \<Rightarrow> [])
                          evs))
         \<and> (\<forall>eff \<in> set (snd (run co that evs)).
               (\<exists>file. eff = FsRead file) \<or> (\<exists>contents. eff = Callback [JNull, JStr contents]))"
    if h: "\<not> initialBuildCompleted (state that)"
      "\<forall>(env, ev) \<in> set evs. \<exists>source smap filePath.
            ev = EvCompile source smap filePath
            \<and> \<not> hasChanged env (cache that) filePath \<and> \<not> hasErrored env (cache that) filePath"
    using run_hits[OF h, of co] hits_trace_kinds[of "cache that" evs] by simp
  from a b show ?thesis by blast
qed

text \<open>C3, witness: \<open>a.js\<close> compiled twice against a cache that holds it.\<close>

theorem compileInBackground_cache_hit_witness:
  "\<not> hasChanged (sample_env sample_files) (cache (sample_plugin [(''a.js'', Some ''.happypack/s--a.js'', None)])) ''a.js''
   \<and> \<not> hasErrored (sample_env sample_files) (cache (sample_plugin [(''a.js'', Some ''.happypack/s--a.js'', None)])) ''a.js''
   \<and> compileInBackground (sample_env sample_files)
        (sample_plugin [(''a.js'', Some ''.happypack/s--a.js'', None)]) ''src a'' JNull ''a.js''
      = (sample_plugin [(''a.js'', Some ''.happypack/s--a.js'', None)],
         [FsRead ''.happypack/s--a.js'', Callback [JNull, JStr ''compiled a'']], None)
   \<and> run sample_compiler_options (sample_plugin [(''a.js'', Some ''.happypack/s--a.js'', None)])
            [(sample_env sample_files, EvCompile ''src a'' JNull ''a.js''),
             (sample_env sample_files, EvCompile ''src a'' JNull ''a.js'')]
      = (sample_plugin [(''a.js'', Some ''.happypack/s--a.js'', None)],
         [FsRead ''.happypack/s--a.js'', Callback [JNull, JStr ''compiled a''],
          FsRead ''.happypack/s--a.js'', Callback [JNull, JStr ''compiled a'']])"
proof -
  let ?c = "[(''a.js'', Some ''.happypack/s--a.js'', None)] :: table_cache"
  let ?env = "sample_env sample_files"
  have k: "cache (sample_plugin ?c) = ?c" by (simp add: sample_plugin_def)
  have h1: "\<not> hasChanged ?env (cache (sample_plugin ?c)) ''a.js''"
    unfolding k by (simp add: sample_env_def)
  have h2: "\<not> hasErrored ?env (cache (sample_plugin ?c)) ''a.js''"
    unfolding k by (simp add: sample_env_def)
  have p: "getCompiledPath ?env (cache (sample_plugin ?c)) ''a.js'' = ''.happypack/s--a.js''"
    unfolding k by (simp add: sample_env_def)
  have h3: "readFileSync ?env ''.happypack/s--a.js'' = Inr ''compiled a''"
    by (simp add: sample_env_def sample_files_def)
  have h4: "\<not> initialBuildCompleted (state (sample_plugin ?c))" by (simp add: sample_plugin_def)
  have h5: "\<forall>(env, ev) \<in> set [(?env, EvCompile ''src a'' JNull ''a.js''),
                                (?env, EvCompile ''src a'' JNull ''a.js'')].
              \<exists>source smap filePath.
                ev = EvCompile source smap filePath
                \<and> \<not> hasChanged env (cache (sample_plugin ?c)) filePath
                \<and> \<not> hasErrored env (cache (sample_plugin ?c)) filePath"
    using h1 h2 by simp
  from compileInBackground_cache_hit[of ?env "sample_plugin ?c" "''a.js''" "''src a''" JNull
         "[(?env, EvCompile ''src a'' JNull ''a.js''),
           (?env, EvCompile ''src a'' JNull ''a.js'')]" sample_compiler_options]
    h1 h2 h4 h5
  show ?thesis by (simp add: p h3)
qed

text \<open>
  C3, counterexample to "returns (no error, contents)" for every such path: the cache holds
  \<open>a.js\<close>, unchanged and not errored, but the compiled file is not on the disk; the read
  throws and the callback is never called.
\<close>

theorem compileInBackground_cache_hit_counterexample:
  "\<not> hasChanged (sample_env []) (cache (sample_plugin [(''a.js'', Some ''.happypack/s--a.js'', None)])) ''a.js''
   \<and> \<not> hasErrored (sample_env []) (cache (sample_plugin [(''a.js'', Some ''.happypack/s--a.js'', None)])) ''a.js''
   \<and> compileInBackground (sample_env [])
        (sample_plugin [(''a.js'', Some ''.happypack/s--a.js'', None)]) ''src a'' JNull ''a.js''
      = (sample_plugin [(''a.js'', Some ''.happypack/s--a.js'', None)], [], Some (JErr ''ENOENT''))"
  by (simp add: compileInBackground_def sample_env_def sample_plugin_def)

section \<open>C4: the cache miss of \<open>compileInBackground\<close>\<close>

lemma background_callbacks:
  "Callback args \<in> set (fst (snd (compileInBackground env that source smap filePath))) \<Longrightarrow>
   \<exists>contents. args = [JNull, JStr contents] \<or> args = [JNull, JStr contents, JNull]
              \<or> args = [JStr contents]"
  by (auto simp: compileInBackground_def Let_def file_had_changed_def
           split: if_splits sum.splits option.splits)

lemma background_ignores_source_and_map:
  "compileInBackground env that source' smap' filePath
     = compileInBackground env that source smap filePath"
  by (simp add: compileInBackground_def)

lemma background_success:
  "hasChanged env (cache that) filePath \<or> hasErrored env (cache that) filePath \<Longrightarrow>
   threadPool that = Some p \<Longrightarrow> thread_compile env p filePath = Some result \<Longrightarrow>
   readFileSync env (compiledPath result) = Inr contents \<Longrightarrow>
   compileInBackground env that source smap filePath
     = (that\<lparr>cache := updateMTimeFor env (invalidateEntryFor env (cache that) filePath) filePath
                         (if success result then Some (compiledPath result) else None)
                         (if success result then None else Some contents)\<rparr>,
        file_had_changed env filePath
        @ [CacheInvalidate filePath, PoolCompile filePath, FsRead (compiledPath result),
           CacheUpdate filePath (if success result then Some (compiledPath result) else None)
                                (if success result then None else Some contents),
           Callback (if success result then [JNull, JStr contents, JNull] else [JStr contents])],
        None)"
  by (auto simp: compileInBackground_def Let_def)




section \<open>C5: \<open>teardown\<close> is idempotent when it returns\<close>

lemma teardown_twice:
  "snd (snd (teardown env that)) = None \<Longrightarrow>
   teardown env' (fst (teardown env that)) = (fst (teardown env that), [], None)"
  by (rule teardown_not_started) (rule teardown_stops)

lemma teardown_trace_counts:
  "count_list (fst (snd (teardown env that))) CacheSave \<le> 1
   \<and> count_list (fst (snd (teardown env that))) PoolStop \<le> 1"
  by (simp add: teardown_def split: sum.splits option.splits)

lemma teardown_trace_once:
  assumes "snd (snd (teardown env that)) = None"
  shows "count_list (fst (snd (teardown env that))
                     @ fst (snd (teardown env' (fst (teardown env that))))) CacheSave \<le> 1
   \<and> count_list (fst (snd (teardown env that))
                   @ fst (snd (teardown env' (fst (teardown env that))))) PoolStop \<le> 1"
  unfolding teardown_twice[OF assms] using teardown_trace_counts[of env that] by simp

lemma reachable_started_pool:
  assumes "HappyPlugin env0 uid userConfig = Inr (that0, uid')"
    and "started (state (fst (run co (apply_plugin that0 co) evs)))"
  shows "threadPool (fst (run co (apply_plugin that0 co) evs)) \<noteq> None"
proof -
  have "started (state (apply_plugin that0 co)) \<longrightarrow> threadPool (apply_plugin that0 co) \<noteq> None"
    using apply_plugin_fresh[OF assms(1)] by simp
  from run_pool_inv[OF this] assms(2) show ?thesis by blast
qed

lemma teardown_stops_pool:
  "started (state that) \<Longrightarrow> threadPool that \<noteq> None \<Longrightarrow> snd (snd (teardown env that)) = None \<Longrightarrow>
   PoolStop \<in> set (fst (snd (teardown env that)))"
  by (auto simp: teardown_def split: if_splits sum.splits option.splits)

lemma teardown_reachable_stops_pool:
  assumes "HappyPlugin env0 uid userConfig = Inr (that0, uid')"
    and "started (state (fst (run co (apply_plugin that0 co) evs)))"
    and "snd (snd (teardown env (fst (run co (apply_plugin that0 co) evs)))) = None"
  shows "PoolStop \<in> set (fst (snd (teardown env (fst (run co (apply_plugin that0 co) evs)))))"
  using teardown_stops_pool[OF assms(2) reachable_started_pool[OF assms(1,2)] assms(3)] .

text \<open>
  C5, as the code has it. \<open>teardown\<close> changes nothing on a plugin that is not started.
  On a started one, when saving the cache and stopping the pool return, it saves the cache
  when caching is enabled, stops the pool when there is one (and a started plugin reached
  from the constructor always has one), and sets \<open>started\<close> to false. A \<open>teardown\<close>
  right after one that returned does nothing, so the two together save the cache and stop
  the pool at most once. When \<open>cache.save\<close> throws, \<open>teardown\<close> throws that exception
  with nothing done; when \<open>threadPool.stop\<close> throws, it throws with the cache saved; in
  both cases \<open>started\<close> stays true.
\<close>

theorem teardown_idempotent:
  "(\<not> started (state that) \<longrightarrow> teardown env that = (that, [], None))
   \<and> (started (state that)
        \<and> (truthy (obj_get (config that) ''cache'') \<longrightarrow> cache_save env (cache that) = Inr c)
        \<and> (\<forall>p. threadPool that = Some p \<longrightarrow> pool_stop env p = None)
      \<longrightarrow> teardown env that =
          ((if truthy (obj_get (config that) ''cache'') then that\<lparr>cache := c\<rparr> else that)
             \<lparr>state := (state that)\<lparr>started := False\<rparr>\<rparr>,
           (if truthy (obj_get (config that) ''cache'') then [CacheSave] else [])
           @ (case threadPool that of None \<Rightarrow> [] | Some p \<Rightarrow> [PoolStop]),
           None))
   \<and> (HappyPlugin env0 uid userConfig = Inr (that0, uid')
        \<and> started (state (fst (run co (apply_plugin that0 co) evs)))
        \<and> snd (snd (teardown env (fst (run co (apply_plugin that0 co) evs)))) = None
      \<longrightarrow> PoolStop \<in> set (fst (snd (teardown env (fst (run co (apply_plugin that0 co) evs))))))
   \<and> (snd (snd (teardown env that)) = None
      \<longrightarrow> \<not> started (state (fst (teardown env that)))
         \<and> teardown env' (fst (teardown env that)) = (fst (teardown env that), [], None)
         \<and> count_list (fst (snd (teardown env that))
                        @ fst (snd (teardown env' (fst (teardown env that))))) CacheSave \<le> 1
         \<and> count_list (fst (snd (teardown env that))
                        @ fst (snd (teardown env' (fst (teardown env that))))) PoolStop \<le> 1)
   \<and> (started (state that) \<and> truthy (obj_get (config that) ''cache'')
        \<and> cache_save env (cache that) = Inl e
      \<longrightarrow> teardown env that = (that, [], Some e))
   \<and> (started (state that)
        \<and> (truthy (obj_get (config that) ''cache'') \<longrightarrow> cache_save env (cache that) = Inr c)
        \<and> threadPool that = Some p \<and> pool_stop env p = Some e
      \<longrightarrow> teardown env that =
          ((if truthy (obj_get (config that) ''cache'') then that\<lparr>cache := c\<rparr> else that),
           (if truthy (obj_get (config that) ''cache'') then [CacheSave] else []), Some e))"
  using teardown_not_started[of that env] teardown_returns[of that env c]
    teardown_reachable_stops_pool[of env0 uid userConfig that0 uid' co evs env]
    teardown_stops[of env that] teardown_twice[of env that env']
    teardown_trace_once[of env that env']
    teardown_save_throws[of that env e] teardown_stop_throws[of that env c p e]
  by blast

text \<open>C5, witness: the sample plugin before \<open>run\<close>, after it, and after a first \<open>teardown\<close>.\<close>

theorem teardown_idempotent_witness:
  "\<not> started (state (sample_plugin []))
   \<and> teardown (sample_env sample_files) (sample_plugin []) = (sample_plugin [], [], None)
   \<and> HappyPlugin (sample_env sample_files) 0 sample_userConfig = Inr (sample_plugin [], 1)
   \<and> started (state (fst (run sample_compiler_options (apply_plugin (sample_plugin []) sample_compiler_options)
                             [(sample_env sample_files, EvRun)])))
   \<and> teardown (sample_env sample_files)
        (fst (run sample_compiler_options (apply_plugin (sample_plugin []) sample_compiler_options)
                [(sample_env sample_files, EvRun)]))
      = ((sample_plugin [])\<lparr>threadPool := Some (HappyThreadPool (config (sample_plugin []))),
                             compilerOptions := JObj sample_compiler_options\<rparr>,
         [CacheSave, PoolStop], None)
   \<and> teardown (sample_env sample_files)
        ((sample_plugin [])\<lparr>threadPool := Some (HappyThreadPool (config (sample_plugin []))),
                             compilerOptions := JObj sample_compiler_options\<rparr>)
      = ((sample_plugin [])\<lparr>threadPool := Some (HappyThreadPool (config (sample_plugin []))),
                             compilerOptions := JObj sample_compiler_options\<rparr>, [], None)
   \<and> PoolStop \<in> set (fst (snd (teardown (sample_env sample_files)
                  (fst (run sample_compiler_options (apply_plugin (sample_plugin []) sample_compiler_options)
                          [(sample_env sample_files, EvRun)])))))"
proof -
  let ?env = "sample_env sample_files"
  let ?run = "fst (run sample_compiler_options (apply_plugin (sample_plugin []) sample_compiler_options)
                     [(?env, EvRun)])"
  let ?stopped = "(sample_plugin [])\<lparr>threadPool := Some (HappyThreadPool (config (sample_plugin []))),
                                     compilerOptions := JObj sample_compiler_options\<rparr>"
  have h1: "\<not> started (state (sample_plugin []))" by (simp add: sample_plugin_def)
  have h2: "started (state ?run)" unfolding sample_started by simp
  have c: "truthy (obj_get (config ?run) ''cache'')"
    unfolding sample_started by (simp add: sample_plugin_def obj_get_def)
  have sv: "truthy (obj_get (config ?run) ''cache'') \<longrightarrow> cache_save ?env (cache ?run) = Inr []"
    unfolding sample_started by (simp add: sample_plugin_def sample_env_def)
  have st: "\<forall>p. threadPool ?run = Some p \<longrightarrow> pool_stop ?env p = None"
    by (simp add: sample_env_def)
  have p: "threadPool ?run = Some (HappyThreadPool (config (sample_plugin [])))"
    unfolding sample_started by simp
  have r: "(if truthy (obj_get (config ?run) ''cache'') then ?run\<lparr>cache := []\<rparr> else ?run)
             \<lparr>state := (state ?run)\<lparr>started := False\<rparr>\<rparr> = ?stopped"
    unfolding sample_started by (simp add: sample_plugin_def obj_get_def)
  note h3 = sample_construction
  from teardown_idempotent[where that = "sample_plugin []" and env = ?env and env' = ?env] h1
  have a: "teardown ?env (sample_plugin []) = (sample_plugin [], [], None)"
    by blast
  from teardown_idempotent[where that = ?run and env = ?env and c = "[]" and env' = ?env
         and ?env0.0 = ?env and uid = 0 and userConfig = sample_userConfig
         and ?that0.0 = "sample_plugin []" and uid' = 1 and co = sample_compiler_options
         and evs = "[(?env, EvRun)]"] h2 sv st
  have "teardown ?env ?run =
          ((if truthy (obj_get (config ?run) ''cache'') then ?run\<lparr>cache := []\<rparr> else ?run)
             \<lparr>state := (state ?run)\<lparr>started := False\<rparr>\<rparr>,
           (if truthy (obj_get (config ?run) ''cache'') then [CacheSave] else [])
           @ (case threadPool ?run of None \<Rightarrow> [] | Some p \<Rightarrow> [PoolStop]),
           None)"
    by blast
  then have d: "teardown ?env ?run = (?stopped, [CacheSave, PoolStop], None)"
    unfolding r by (simp only: c p if_True option.case append.simps)
  then have n: "snd (snd (teardown ?env ?run)) = None" and f: "fst (teardown ?env ?run) = ?stopped"
    by simp_all
  from teardown_idempotent[where that = ?run and env = ?env and c = "[]" and env' = ?env
         and ?env0.0 = ?env and uid = 0 and userConfig = sample_userConfig
         and ?that0.0 = "sample_plugin []" and uid' = 1 and co = sample_compiler_options
         and evs = "[(?env, EvRun)]"] h2 h3 n
  have b: "PoolStop \<in> set (fst (snd (teardown ?env ?run)))"
    and t: "teardown ?env (fst (teardown ?env ?run)) = (fst (teardown ?env ?run), [], None)"
    by blast+
  from t have t': "teardown ?env ?stopped = (?stopped, [], None)" unfolding f .
  from h1 a h3 h2 d t' b show ?thesis by blast
qed

text \<open>
  C5, counterexample to "never throws" and "at most once", on the started sample plugin:
  with a \<open>cache.save\<close> that throws, \<open>teardown\<close> throws and the plugin stays started;
  with a \<open>threadPool.stop\<close> that throws, \<open>teardown\<close> throws after saving the cache,
  and the next \<open>teardown\<close> saves it again.
\<close>

theorem teardown_idempotent_counterexample:
  "started (state (fst (run sample_compiler_options (apply_plugin (sample_plugin []) sample_compiler_options)
                          [(sample_env sample_files, EvRun)])))
   \<and> snd (snd (teardown ((sample_env sample_files)\<lparr>cache_save := (\<lambda>c. Inl (JErr ''ENOSPC''))\<rparr>)
                 (fst (run sample_compiler_options (apply_plugin (sample_plugin []) sample_compiler_options)
                         [(sample_env sample_files, EvRun)]))))
      = Some (JErr ''ENOSPC'')
   \<and> started (state (fst (teardown ((sample_env sample_files)\<lparr>cache_save := (\<lambda>c. Inl (JErr ''ENOSPC''))\<rparr>)
                 (fst (run sample_compiler_options (apply_plugin (sample_plugin []) sample_compiler_options)
                         [(sample_env sample_files, EvRun)])))))
   \<and> teardown ((sample_env sample_files)\<lparr>pool_stop := (\<lambda>p. Some (JErr ''EPERM''))\<rparr>)
        (fst (run sample_compiler_options (apply_plugin (sample_plugin []) sample_compiler_options)
                [(sample_env sample_files, EvRun)]))
      = (fst (run sample_compiler_options (apply_plugin (sample_plugin []) sample_compiler_options)
                [(sample_env sample_files, EvRun)]),
         [CacheSave], Some (JErr ''EPERM''))
   \<and> fst (snd (teardown (sample_env sample_files)
                  (fst (teardown ((sample_env sample_files)\<lparr>pool_stop := (\<lambda>p. Some (JErr ''EPERM''))\<rparr>)
                          (fst (run sample_compiler_options
                                  (apply_plugin (sample_plugin []) sample_compiler_options)
                                  [(sample_env sample_files, EvRun)]))))))
      = [CacheSave, PoolStop]"
  unfolding sample_started
  by (simp add: teardown_def sample_env_def sample_plugin_def obj_get_def)

section \<open>C6: a second build-begin event\<close>

text \<open>
  C6. On a plugin that is started, or whose initial build has completed, \<open>start\<close> only
  calls the readiness callback, with no argument: nothing is written, no pool is made or
  started, and the plugin is unchanged. In particular a \<open>start\<close> that follows a
  \<open>start\<close> which left the plugin started does just that.
\<close>

theorem start_noop:
  "(started (state that) \<or> initialBuildCompleted (state that)
      \<longrightarrow> start env compiler_options that = (that, [Callback []], None))
   \<and> (started (state (fst (start env compiler_options that)))
      \<longrightarrow> start env' compiler_options (fst (start env compiler_options that))
            = (fst (start env compiler_options that), [Callback []], None))"
  by (simp add: start_def)

text \<open>C6, witness: \<open>start\<close> twice on the sample plugin.\<close>

theorem start_noop_witness:
  "started (state (fst (start (sample_env sample_files) sample_compiler_options (sample_plugin []))))
   \<and> start (sample_env sample_files) sample_compiler_options
        (fst (start (sample_env sample_files) sample_compiler_options (sample_plugin [])))
      = (fst (start (sample_env sample_files) sample_compiler_options (sample_plugin [])),
         [Callback []], None)"
proof -
  have s: "started (state (fst (start (sample_env sample_files) sample_compiler_options (sample_plugin []))))"
    by (simp add: start_def write_options_def Let_def sample_env_def sample_plugin_def obj_get_def)
  from start_noop[of "fst (start (sample_env sample_files) sample_compiler_options (sample_plugin []))"
         "sample_env sample_files" sample_compiler_options "sample_env sample_files"] s
  show ?thesis by blast
qed

section \<open>C7: an error of the loaders in \<open>compileInForeground\<close>\<close>

lemma foreground_prefix:
  "\<exists>rest. fst (snd (compileInForeground env that source smap filePath))
            = CacheInvalidate filePath # ApplyLoaders filePath # rest"
  by (simp add: compileInForeground_def Let_def split: option.splits prod.splits jsval.splits)

lemma foreground_error:
  "applyLoaders env (JObj [(''loaders'', obj_get (config that) ''loaders''),
                           (''compilerOptions'', compilerOptions that)])
                source smap filePath = Some (err, code, result_map) \<Longrightarrow> truthy err \<Longrightarrow>
   compileInForeground env that source smap filePath
     = (that\<lparr>cache := invalidateEntryFor env (cache that) filePath\<rparr>,
        [CacheInvalidate filePath, ApplyLoaders filePath, Callback [err]], None)"
  by (simp add: compileInForeground_def Let_def)

text \<open>
  C7. \<open>compileInForeground\<close> always invalidates the entry of the path first and calls the
  loaders next. When the loaders report an error, the callback gets that same error and
  nothing else happens: the cache is the invalidated one, with no update.
\<close>

theorem compileInForeground_error:
  "(\<exists>rest. fst (snd (compileInForeground env that source smap filePath))
            = CacheInvalidate filePath # ApplyLoaders filePath # rest)
   \<and> (applyLoaders env (JObj [(''loaders'', obj_get (config that) ''loaders''),
                              (''compilerOptions'', compilerOptions that)])
                    source smap filePath = Some (err, code, result_map) \<and> truthy err
       \<longrightarrow> compileInForeground env that source smap filePath
             = (that\<lparr>cache := invalidateEntryFor env (cache that) filePath\<rparr>,
                [CacheInvalidate filePath, ApplyLoaders filePath, Callback [err]], None))"
  using foreground_prefix[of env that source smap filePath]
    foreground_error[of env that source smap filePath err code result_map]
  by blast

text \<open>
  C7, witness: \<open>bad.js\<close>, whose entry held a compiled path before: the entry is gone.
\<close>

theorem compileInForeground_error_witness:
  "truthy (JErr ''SyntaxError'')
   \<and> compileInForeground (sample_env sample_files)
        (sample_plugin [(''bad.js'', Some ''.happypack/s--bad.js'', None)]) ''var a = ;'' JNull ''bad.js''
      = (sample_plugin [], [CacheInvalidate ''bad.js'', ApplyLoaders ''bad.js'',
                            Callback [JErr ''SyntaxError'']], None)"
proof -
  let ?env = "sample_env sample_files"
  let ?that = "sample_plugin [(''bad.js'', Some ''.happypack/s--bad.js'', None)]"
  have h1: "applyLoaders ?env (JObj [(''loaders'', obj_get (config ?that) ''loaders''),
                                     (''compilerOptions'', compilerOptions ?that)])
              ''var a = ;'' JNull ''bad.js'' = Some (JErr ''SyntaxError'', [], JUndefined)"
    by (simp add: sample_env_def)
  have h2: "truthy (JErr ''SyntaxError'')" by simp
  have i: "?that\<lparr>cache := invalidateEntryFor ?env (cache ?that) ''bad.js''\<rparr> = sample_plugin []"
    by (simp add: sample_env_def sample_plugin_def)
  from compileInForeground_error[of ?env ?that "''var a = ;''" JNull "''bad.js''"
         "JErr ''SyntaxError''" "[]" JUndefined] h1 h2
  show ?thesis unfolding i by blast
qed

section \<open>C8: \<open>extractOptions\<close> keeps the allow-list only\<close>

lemma extract_fold:
  "map_of (fold (\<lambda>key hsh. if indexOf A key > -1 then AList.update key (obj_get options key) hsh else hsh) ks acc) k
   = (if k \<in> set ks \<and> k \<in> set A then Some (obj_get options k) else map_of acc k)"
  by (induction ks arbitrary: acc) (auto simp: indexOf_mem update_conv')

lemma extract_fold_distinct:
  "distinct (map fst acc) \<Longrightarrow> distinct (map fst (fold (\<lambda>key hsh. if indexOf A key > -1 then AList.update key (obj_get options key) hsh else hsh) ks acc))"
  by (induction ks arbitrary: acc) (auto simp: distinct_update)

lemma obj_get_mem: "k \<in> set (map fst ob) \<Longrightarrow> Some (obj_get ob k) = map_of ob k"
  by (cases "map_of ob k") (auto simp: obj_get_def map_of_eq_None_iff)

text \<open>
  C8. The result of \<open>extractOptions\<close> is the input restricted to the keys of
  \<open>SERIALIZABLE_OPTIONS\<close>: its keys are in the allow-list, each once, and each has the
  value the input gives it.
\<close>

theorem extractOptions_allow_list:
  "map_of (extractOptions options) = map_of options |` set SERIALIZABLE_OPTIONS
   \<and> fst ` set (extractOptions options) \<subseteq> set SERIALIZABLE_OPTIONS
   \<and> distinct (map fst (extractOptions options))"
proof -
  have m: "map_of (extractOptions options) k = (map_of options |` set SERIALIZABLE_OPTIONS) k" for k
    unfolding extractOptions_def Let_def Object_keys_def extract_fold
    using obj_get_mem[of k options]
    by (auto simp: restrict_map_def map_of_eq_None_iff[symmetric])
  have "dom (map_of (extractOptions options)) \<subseteq> set SERIALIZABLE_OPTIONS"
    using m by (auto simp: restrict_map_def split: if_splits)
  then have d: "fst ` set (extractOptions options) \<subseteq> set SERIALIZABLE_OPTIONS"
    by (simp add: dom_map_of_conv_image_fst)
  have "distinct (map fst (extractOptions options))"
    unfolding extractOptions_def Let_def by (rule extract_fold_distinct) simp
  with m d show ?thesis by auto
qed

text \<open>C8, witness: options with the keys \<open>entry\<close> and \<open>plugins\<close>, which are dropped.\<close>

theorem extractOptions_allow_list_witness:
  "extractOptions [(''entry'', JStr ''./a.js''), (''watch'', JBool True), (''plugins'', JArr []), (''cache'', JBool False)]
     = [(''watch'', JBool True), (''cache'', JBool False)]
   \<and> fst ` set (extractOptions [(''entry'', JStr ''./a.js''), (''watch'', JBool True), (''plugins'', JArr []), (''cache'', JBool False)])
        \<subseteq> set SERIALIZABLE_OPTIONS"
  using extractOptions_allow_list [of "[(''entry'', JStr ''./a.js''), (''watch'', JBool True), (''plugins'', JArr []), (''cache'', JBool False)]"]
  by (simp add: extractOptions_def SERIALIZABLE_OPTIONS_def Object_keys_def obj_get_def)

section \<open>C9: the coercion of \<open>threads\<close>\<close>

lemma parse_key_result:
  assumes "parse_key params sch dn key hsh = Inr hsh'"
  shows "\<exists>sp. map_of sch key = Some sp
           \<and> (\<forall>t. spec_type sp = Some t \<longrightarrow> t = [] \<or> typeof (obj_get params key) = t)
           \<and> hsh' = AList.update key
                      (if truthy (spec_default sp)
                          \<and> (obj_get params key = JUndefined \<or> obj_get params key = JNull)
                       then spec_default sp else obj_get params key) hsh"
proof (cases "map_of sch key")
  case None
  with assms show ?thesis by (simp add: parse_key_def)
next
  case (Some sp)
  let ?v = "obj_get params key"
  let ?validated = "case spec_validate sp of None \<Rightarrow> Inr None | Some validate \<Rightarrow> validate ?v"
  from assms Some obtain verr where v: "?validated = Inr verr"
    by (cases ?validated) (simp_all add: parse_key_def)
  let ?msg = "case verr of None \<Rightarrow> None | Some m \<Rightarrow> if m = [] then None else Some m"
  from assms Some v have m: "?msg = None"
    by (cases ?msg) (simp_all add: parse_key_def)
  let ?ty = "case spec_type sp of None \<Rightarrow> None
             | Some t \<Rightarrow> if t = [] \<or> typeof ?v = t then None else Some t"
  from assms Some v m have t: "?ty = None"
    by (cases ?ty) (simp_all add: parse_key_def)
  from assms Some v m t have
    r: "(if truthy (spec_default sp) \<and> (?v = JUndefined \<or> ?v = JNull)
         then Inr (AList.update key (spec_default sp) hsh)
         else Inr (AList.update key ?v hsh)) = (Inr hsh' :: jsval + obj)"
    by (simp add: parse_key_def Let_def)
  have "hsh' = AList.update key
              (if truthy (spec_default sp) \<and> (?v = JUndefined \<or> ?v = JNull)
               then spec_default sp else ?v) hsh"
  proof (cases "truthy (spec_default sp) \<and> (?v = JUndefined \<or> ?v = JNull)")
    case True
    with r show ?thesis by simp
  next
    case False
    with r show ?thesis by auto
  qed
  moreover from t have "\<forall>t. spec_type sp = Some t \<longrightarrow> t = [] \<or> typeof ?v = t"
    by (simp split: option.splits if_splits)
  ultimately show ?thesis using Some by simp
qed

lemma reduce_parse_other:
  "reduce (parse_key params sch dn) ks acc = Inr hsh \<Longrightarrow> k \<notin> set ks \<Longrightarrow>
   obj_get hsh k = obj_get acc k"
proof (induction ks arbitrary: acc)
  case Nil
  then show ?case by simp
next
  case (Cons key ks)
  from Cons.prems(1) obtain acc' where
    step: "parse_key params sch dn key acc = Inr acc'"
    and rest: "reduce (parse_key params sch dn) ks acc' = Inr hsh"
    by (auto split: sum.splits)
  from parse_key_result[OF step] Cons.prems(2) have "obj_get acc' k = obj_get acc k"
    by (auto simp: obj_get_update)
  with Cons.IH[OF rest] Cons.prems(2) show ?case by simp
qed

lemma reduce_parse_key:
  "reduce (parse_key params sch dn) ks acc = Inr hsh \<Longrightarrow> k \<in> set ks \<Longrightarrow>
   \<exists>sp. map_of sch k = Some sp
      \<and> (\<forall>t. spec_type sp = Some t \<longrightarrow> t = [] \<or> typeof (obj_get params k) = t)
      \<and> obj_get hsh k = (if truthy (spec_default sp)
                            \<and> (obj_get params k = JUndefined \<or> obj_get params k = JNull)
                         then spec_default sp else obj_get params k)"
proof (induction ks arbitrary: acc)
  case Nil
  then show ?case by simp
next
  case (Cons key ks)
  from Cons.prems(1) obtain acc' where
    step: "parse_key params sch dn key acc = Inr acc'"
    and rest: "reduce (parse_key params sch dn) ks acc' = Inr hsh"
    by (auto split: sum.splits)
  show ?case
  proof (cases "k \<in> set ks")
    case True
    then show ?thesis by (rule Cons.IH[OF rest])
  next
    case False
    with Cons.prems(2) have k: "k = key" by simp
    have "obj_get hsh k = obj_get acc' k" by (rule reduce_parse_other[OF rest False])
    with parse_key_result[OF step] k show ?thesis by (auto simp: obj_get_update)
  qed
qed

lemma typeof_number: "typeof v = ''number'' \<Longrightarrow> \<exists>t. v = JNum t"
  by (cases v) simp_all

lemma parsed_threads:
  assumes "parseAndValidateOptions userConfig plugin_schema dn = Inr config0"
  shows "obj_get config0 ''threads''
           = (case map_of userConfig ''threads'' of None \<Rightarrow> JNum (Finite 3) | Some v \<Rightarrow> v)
         \<and> (\<forall>v. map_of userConfig ''threads'' = Some v \<longrightarrow> (\<exists>t. v = JNum t))"
proof -
  from assms have red: "reduce (parse_key userConfig plugin_schema dn) (map fst userConfig)
                          (getDefaults plugin_schema) = Inr config0"
    by (simp add: parseAndValidateOptions_def Object_keys_def split: option.splits)
  show ?thesis
  proof (cases "map_of userConfig ''threads''")
    case None
    then have "''threads'' \<notin> set (map fst userConfig)"
      by (simp add: map_of_eq_None_iff)
    from reduce_parse_other[OF red this]
    have "obj_get config0 ''threads'' = obj_get (getDefaults plugin_schema) ''threads''" .
    also have "\<dots> = JNum (Finite 3)"
      by (simp add: getDefaults_def plugin_schema_def plain_def obj_get_def)
    finally show ?thesis using None by simp
  next
    case (Some v)
    then have g: "obj_get userConfig ''threads'' = v" by (simp add: obj_get_def)
    from Some have "''threads'' \<in> set (map fst userConfig)"
      using map_of_SomeD[OF Some] by (force simp: image_iff)
    from reduce_parse_key[OF red this] obtain sp where
      sp: "map_of plugin_schema ''threads'' = Some sp"
      and ty: "\<forall>t. spec_type sp = Some t \<longrightarrow> t = [] \<or> typeof (obj_get userConfig ''threads'') = t"
      and val: "obj_get config0 ''threads''
                 = (if truthy (spec_default sp)
                       \<and> (obj_get userConfig ''threads'' = JUndefined
                          \<or> obj_get userConfig ''threads'' = JNull)
                    then spec_default sp else obj_get userConfig ''threads'')"
      by blast
    from sp have spv: "spec_type sp = Some ''number''"
      by (auto simp: plugin_schema_def plain_def)
    with ty g have "typeof v = ''number''" by auto
    then obtain t where t: "v = JNum t" using typeof_number by blast
    with val g have "obj_get config0 ''threads'' = v" by simp
    with Some t show ?thesis by simp
  qed
qed

lemma HappyPlugin_threads:
  assumes "HappyPlugin env uid userConfig = Inr (that, uid')"
  shows "\<exists>config0 dn. parseAndValidateOptions userConfig plugin_schema dn = Inr config0
           \<and> obj_get (config that) ''threads''
               = JNum (Math_max (Math_ceil (Number_of env (obj_get config0 ''threads''))) (Finite 1))"
  using assms
  by (auto simp: HappyPlugin_def Let_def obj_get_update
           split: sum.splits jsval.splits option.splits if_splits)

lemma max_ceil_finite:
  "Math_max (Math_ceil (Finite q)) (Finite 1) = Finite (of_int (max \<lceil>q\<rceil> 1))"
  by (simp add: max_def)

text \<open>
  The coercion on the numbers that have a ceiling. When construction succeeds, a numeric
  \<open>threads\<close> becomes \<open>Math.max(Math.ceil(threads), 1)\<close>; for a finite one that is the
  integer \<open>max \<lceil>threads\<rceil> 1\<close>, so \<open>2.4\<close> gives 3; an absent \<open>threads\<close> gives 3.
\<close>

theorem threads_coercion:
  assumes "HappyPlugin env uid userConfig = Inr (that, uid')"
  shows "(\<forall>t. map_of userConfig ''threads'' = Some (JNum t)
            \<longrightarrow> obj_get (config that) ''threads'' = JNum (Math_max (Math_ceil t) (Finite 1)))
       \<and> (\<forall>q. map_of userConfig ''threads'' = Some (JNum (Finite q))
            \<longrightarrow> obj_get (config that) ''threads'' = JNum (Finite (of_int (max \<lceil>q\<rceil> 1))))
       \<and> (map_of userConfig ''threads'' = None
            \<longrightarrow> obj_get (config that) ''threads'' = JNum (Finite 3))"
proof -
  from HappyPlugin_threads[OF assms] obtain config0 dn where
    p: "parseAndValidateOptions userConfig plugin_schema dn = Inr config0"
    and c: "obj_get (config that) ''threads''
               = JNum (Math_max (Math_ceil (Number_of env (obj_get config0 ''threads''))) (Finite 1))"
    by blast
  have a: "obj_get (config that) ''threads'' = JNum (Math_max (Math_ceil t) (Finite 1))"
    if "map_of userConfig ''threads'' = Some (JNum t)" for t
    using parsed_threads[OF p] that c by (simp add: Number_of_def)
  have b: "obj_get (config that) ''threads'' = JNum (Finite (of_int (max \<lceil>q\<rceil> 1)))"
    if "map_of userConfig ''threads'' = Some (JNum (Finite q))" for q
    using a[OF that] by (simp only: max_ceil_finite)
  have d: "obj_get (config that) ''threads'' = JNum (Finite 3)"
    if "map_of userConfig ''threads'' = None"
    using parsed_threads[OF p] that c by (simp add: Number_of_def)
  from a b d show ?thesis by blast
qed

text \<open>The scenario \<open>{loaders: [{path: "x"}], threads: 2.4}\<close>.\<close>

theorem threads_coercion_witness:
  "HappyPlugin (sample_env sample_files) 0 sample_userConfig = Inr (sample_plugin [], 1)
   \<and> map_of sample_userConfig ''threads'' = Some (JNum (Finite (24 / 10)))
   \<and> obj_get (config (sample_plugin [])) ''threads'' = JNum (Finite 3)"
proof -
  note h = sample_construction
  have m: "map_of sample_userConfig ''threads'' = Some (JNum (Finite (24 / 10)))"
    by (simp add: sample_userConfig_def)
  have c: "\<lceil>24 / 10 :: rat\<rceil> = 3" by (simp add: ceiling_eq_iff)
  from threads_coercion[OF h] m
  have "obj_get (config (sample_plugin [])) ''threads'' = JNum (Finite (of_int (max \<lceil>24 / 10 :: rat\<rceil> 1)))"
    by blast
  then have "obj_get (config (sample_plugin [])) ''threads'' = JNum (Finite 3)"
    unfolding c by simp
  with h m show ?thesis by blast
qed

lemma sample_NaN:
  "HappyPlugin (sample_env sample_files) 0
     [(''loaders'', JArr [JObj [(''path'', JStr ''x'')]]), (''threads'', JNum NaN)]
   = Inr (\<lparr>plugin_id = ''1'',
      plugin_name = ''HappyPack'',
      state = \<lparr>started = False, initialBuildCompleted = False\<rparr>,
      config = [(''tempDir'', JStr ''.happypack''), (''threads'', JNum NaN),
                (''cache'', JBool True), (''cacheContext'', JObj []),
                (''installExitHandler'', JBool True),
                (''loaders'', JArr [JObj [(''path'', JStr ''x'')]]),
                (''optionsPath'', JStr ''.happypack/options--1.json'')],
      cache = [],
      threadPool = None,
      compilerOptions = JUndefined\<rparr>, 1)"
  by (simp add: HappyPlugin_def sample_env_def parseAndValidateOptions_def
     plugin_schema_def plain_def hasOwnProperty_def getDefaults_def Object_keys_def parse_key_def obj_get_def
     validate_loaders_def String_of_def Number_of_def)

text \<open>
  C9, at \<open>{loaders: [{path: "x"}], threads: NaN}\<close>. NaN has type \<open>number\<close>, so the
  options are accepted; \<open>Math.ceil\<close> and \<open>Math.max\<close> both return NaN for it, and the
  plugin is made with \<open>threads = NaN\<close>, which is not an integer greater than or equal
  to 1.
\<close>

theorem threads_NaN:
  "(case HappyPlugin (sample_env sample_files) 0
           [(''loaders'', JArr [JObj [(''path'', JStr ''x'')]]), (''threads'', JNum NaN)] of
      Inl e \<Rightarrow> False
    | Inr (that, uid') \<Rightarrow> obj_get (config that) ''threads'' = JNum NaN)"
  unfolding sample_NaN by (simp add: obj_get_def)

section \<open>C10: no source map from the background path\<close>

lemma is_callback_filter:
  "[eff \<leftarrow> file_had_changed env filePath. \<exists>args. eff = Callback args] = []"
  by (simp add: file_had_changed_def)

lemma sample_foreground_map:
  "fst (snd (compileInForeground (sample_env sample_files) (sample_plugin []) ''src a''
               (JStr ''map'') ''a.js''))
     = [CacheInvalidate ''a.js'', ApplyLoaders ''a.js'', FsWrite ''.happypack/s--a.js'' ''src a'',
        CacheUpdate ''a.js'' (Some ''.happypack/s--a.js'') None,
        Callback [JNull, JStr ''src a'', JStr ''map'']]"
  by (simp add: compileInForeground_def sample_env_def sample_plugin_def obj_get_def Let_def)

text \<open>
  C10. Every callback of \<open>compileInBackground\<close> has the arguments \<open>(null, contents)\<close>,
  \<open>(null, contents, null)\<close> or \<open>(contents)\<close>: a cache hit calls back with
  \<open>(null, contents)\<close> only, a successful worker with \<open>(null, contents, null)\<close>, and the
  \<open>map\<close> passed in changes nothing. The foreground path does return a map that is not
  null: on the sample plugin it hands back the map of the loaders.
\<close>

theorem background_returns_no_map:
  "(\<forall>args. Callback args \<in> set (fst (snd (compileInBackground env that source smap filePath)))
        \<longrightarrow> (\<exists>contents. args = [JNull, JStr contents] \<or> args = [JNull, JStr contents, JNull]
                         \<or> args = [JStr contents]))
   \<and> (\<not> hasChanged env (cache that) filePath \<and> \<not> hasErrored env (cache that) filePath
        \<and> readFileSync env (getCompiledPath env (cache that) filePath) = Inr contents
      \<longrightarrow> [eff \<leftarrow> fst (snd (compileInBackground env that source smap filePath)).
              \<exists>args. eff = Callback args] = [Callback [JNull, JStr contents]])
   \<and> ((hasChanged env (cache that) filePath \<or> hasErrored env (cache that) filePath)
        \<and> threadPool that = Some p \<and> thread_compile env p filePath = Some result
        \<and> success result \<and> readFileSync env (compiledPath result) = Inr contents
      \<longrightarrow> [eff \<leftarrow> fst (snd (compileInBackground env that source smap filePath)).
              \<exists>args. eff = Callback args] = [Callback [JNull, JStr contents, JNull]])
   \<and> compileInBackground env that source smap' filePath
       = compileInBackground env that source smap filePath
   \<and> Callback [JNull, JStr ''src a'', JStr ''map'']
       \<in> set (fst (snd (compileInForeground (sample_env sample_files) (sample_plugin [])
                          ''src a'' (JStr ''map'') ''a.js'')))"
proof -
  have a: "\<forall>args. Callback args \<in> set (fst (snd (compileInBackground env that source smap filePath)))
        \<longrightarrow> (\<exists>contents. args = [JNull, JStr contents] \<or> args = [JNull, JStr contents, JNull]
                         \<or> args = [JStr contents])"
    using background_callbacks by blast
  have b: "\<not> hasChanged env (cache that) filePath \<and> \<not> hasErrored env (cache that) filePath
        \<and> readFileSync env (getCompiledPath env (cache that) filePath) = Inr contents
      \<longrightarrow> [eff \<leftarrow> fst (snd (compileInBackground env that source smap filePath)).
              \<exists>args. eff = Callback args] = [Callback [JNull, JStr contents]]"
    by (simp add: background_hit)
  have c: "(hasChanged env (cache that) filePath \<or> hasErrored env (cache that) filePath)
        \<and> threadPool that = Some p \<and> thread_compile env p filePath = Some result
        \<and> success result \<and> readFileSync env (compiledPath result) = Inr contents
      \<longrightarrow> [eff \<leftarrow> fst (snd (compileInBackground env that source smap filePath)).
              \<exists>args. eff = Callback args] = [Callback [JNull, JStr contents, JNull]]"
    by (auto simp: background_success is_callback_filter)
  have d: "compileInBackground env that source smap' filePath
       = compileInBackground env that source smap filePath"
    by (rule background_ignores_source_and_map)
  have e: "Callback [JNull, JStr ''src a'', JStr ''map'']
       \<in> set (fst (snd (compileInForeground (sample_env sample_files) (sample_plugin [])
                          ''src a'' (JStr ''map'') ''a.js'')))"
    unfolding sample_foreground_map by simp
  from a b c d e show ?thesis by blast
qed

text \<open>C10, witness: \<open>a.js\<close> from the cache, and from a worker, with a map passed in.\<close>

theorem background_returns_no_map_witness:
  "Callback [JNull, JStr ''compiled a'']
     \<in> set (fst (snd (compileInBackground (sample_env sample_files)
                        (sample_plugin [(''a.js'', Some ''.happypack/s--a.js'', None)])
                        ''src a'' (JStr ''map'') ''a.js'')))
   \<and> (\<exists>contents. [JNull, JStr ''compiled a''] = [JNull, JStr contents]
                  \<or> [JNull, JStr ''compiled a''] = [JNull, JStr contents, JNull]
                  \<or> [JNull, JStr ''compiled a''] = [JStr contents])
   \<and> [eff \<leftarrow> fst (snd (compileInBackground (sample_env sample_files)
                          (sample_plugin [(''a.js'', Some ''.happypack/s--a.js'', None)])
                          ''src a'' (JStr ''map'') ''a.js'')).
         \<exists>args. eff = Callback args] = [Callback [JNull, JStr ''compiled a'']]
   \<and> [eff \<leftarrow> fst (snd (compileInBackground (sample_env sample_files)
                          ((sample_plugin [])\<lparr>threadPool := Some (HappyThreadPool [])\<rparr>)
                          ''src a'' (JStr ''map'') ''a.js'')).
         \<exists>args. eff = Callback args] = [Callback [JNull, JStr ''compiled a'', JNull]]"
proof -
  let ?env = "sample_env sample_files"
  let ?c = "[(''a.js'', Some ''.happypack/s--a.js'', None)] :: table_cache"
  let ?hit = "sample_plugin ?c"
  let ?miss = "(sample_plugin [])\<lparr>threadPool := Some (HappyThreadPool [])\<rparr>"
  let ?result = "\<lparr>success = True, compiledPath = ''.happypack/s--a.js''\<rparr>"
  have k: "cache ?hit = ?c" "cache ?miss = []" by (simp_all add: sample_plugin_def)
  have h1: "\<not> hasChanged ?env (cache ?hit) ''a.js'' \<and> \<not> hasErrored ?env (cache ?hit) ''a.js''
            \<and> readFileSync ?env (getCompiledPath ?env (cache ?hit) ''a.js'') = Inr ''compiled a''"
    unfolding k by (simp add: sample_env_def sample_files_def)
  have h2: "(hasChanged ?env (cache ?miss) ''a.js'' \<or> hasErrored ?env (cache ?miss) ''a.js'')
            \<and> threadPool ?miss = Some (HappyThreadPool [])
            \<and> thread_compile ?env (HappyThreadPool []) ''a.js'' = Some ?result
            \<and> success ?result
            \<and> readFileSync ?env (compiledPath ?result) = Inr ''compiled a''"
    unfolding k by (simp add: sample_env_def sample_files_def)
  have m: "Callback [JNull, JStr ''compiled a'']
     \<in> set (fst (snd (compileInBackground ?env ?hit ''src a'' (JStr ''map'') ''a.js'')))"
    by (simp add: compileInBackground_def sample_env_def sample_files_def sample_plugin_def)
  from background_returns_no_map[of ?env ?hit "''src a''" "JStr ''map''" "''a.js''" "''compiled a''"
         "HappyThreadPool []" ?result JNull] h1 m
  have a: "\<exists>contents. [JNull, JStr ''compiled a''] = [JNull, JStr contents]
                  \<or> [JNull, JStr ''compiled a''] = [JNull, JStr contents, JNull]
                  \<or> [JNull, JStr ''compiled a''] = [JStr contents]"
    and b: "[eff \<leftarrow> fst (snd (compileInBackground ?env ?hit ''src a'' (JStr ''map'') ''a.js'')).
              \<exists>args. eff = Callback args] = [Callback [JNull, JStr ''compiled a'']]"
    by blast+
  from background_returns_no_map[of ?env ?miss "''src a''" "JStr ''map''" "''a.js''" "''compiled a''"
         "HappyThreadPool []" ?result JNull] h2
  have c: "[eff \<leftarrow> fst (snd (compileInBackground ?env ?miss ''src a'' (JStr ''map'') ''a.js'')).
              \<exists>args. eff = Callback args] = [Callback [JNull, JStr ''compiled a'', JNull]]"
    by blast
  from m a b c show ?thesis by blast
qed

end
